theory Spec2Isabelle
  imports Main "HOL-Library.AList" "HOL-Library.Char_ord" "HOL-Library.List_Lexorder"
begin

section \<open>Komi Reader Hub: directory scanning and entity persistence\<close>

text \<open>
  A shallow embedding of the scanner of the Electron main process (the
  \<^verbatim>\<open>read-directory\<close> and \<^verbatim>\<open>rename-folder\<close> handlers), of the sibling scanner
  \<^verbatim>\<open>scanDirectory.cjs\<close>, of the file-backed store \<^verbatim>\<open>EnhancedFileStorage\<close>
  (\<^verbatim>\<open>fileStorage.ts\<close>), of the merge step of \<^verbatim>\<open>ComicsLibrary\<close> and of the usage-checked
  tag deletion of \<^verbatim>\<open>GenreManager\<close>.

  Conventions. JavaScript strings are \<^typ>\<open>string\<close>; names, titles and paths are read as
  ASCII text, so that code units, bytes and characters coincide. A \<^verbatim>\<open>Date\<close> is a
  \<^typ>\<open>nat\<close> (milliseconds). An optional property is an \<^typ>\<open>'a option\<close>. Record fields
  keep the names of the source; where two interfaces share a field name, the fields of
  \<^verbatim>\<open>ComicFolder\<close> carry the prefix \<^verbatim>\<open>cf_\<close>, those of an index entry \<^verbatim>\<open>ix_\<close>, and
  \<^verbatim>\<open>Comic.id\<close> and \<^verbatim>\<open>Comic.depth\<close> are \<^verbatim>\<open>comicId\<close> and \<^verbatim>\<open>comicDepth\<close>.
\<close>

subsection \<open>Data model (\<^verbatim>\<open>types/comic.ts\<close>)\<close>

record ComicGenres =
  protagonist :: "string list option"
  antagonist :: "string list option"
  supporting :: "string list option"
  narrative :: "string list option"

record Comic =
  comicId :: string
  title :: string
  displayTitle :: "string option"
  author :: "string option"
  groupAuthor :: "string option"
  genres :: "string list"
  comicGenres :: "ComicGenres option"
  genre :: "string option"
  tags :: "string list option"
  description :: "string option"
  releaseDate :: "nat option"
  lastRead :: "nat option"
  lastReadPage :: "nat option"
  lastReadDate :: "string option"
  coverImage :: string
  totalPages :: nat
  currentPage :: nat
  folderPath :: string
  pages :: "string list option"
  comicDepth :: "nat option"


subsection \<open>Merging reading progress (\<^verbatim>\<open>ComicsLibrary\<close>)\<close>




subsection \<open>Strings and paths\<close>

text \<open>
  The string methods and the functions of Node's \<^verbatim>\<open>path\<close> module (POSIX flavour) that the
  program calls. \<open>toLowerCase\<close>, the class \<^verbatim>\<open>\s\<close> and \<^verbatim>\<open>Buffer.from(s)\<close> are given for
  ASCII text. \<open>path_join\<close> is \<^verbatim>\<open>path.join\<close> for a normalised directory and a plain entry
  name, \<open>path_relative\<close> is \<^verbatim>\<open>path.relative\<close> for a target below the base; these are the
  only calls the scanner makes. \<open>path_dirname\<close> and \<open>path_basename\<close> follow the loops of
  Node's implementation.
\<close>

definition toLowerChar :: "char \<Rightarrow> char" where
  "toLowerChar c =
     (case map_of (zip ''ABCDEFGHIJKLMNOPQRSTUVWXYZ'' ''abcdefghijklmnopqrstuvwxyz'') c of
        Some l \<Rightarrow> l | None \<Rightarrow> c)"

definition toLowerCase :: "string \<Rightarrow> string" where
  "toLowerCase s = map toLowerChar s"

definition isSpace :: "char \<Rightarrow> bool" where
  "isSpace c \<longleftrightarrow> c \<in> set [CHR 0x09, CHR 0x0A, CHR 0x0B, CHR 0x0C, CHR 0x0D, CHR '' '']"

function replaceSpaces :: "string \<Rightarrow> string \<Rightarrow> string" where
  "replaceSpaces rep [] = []"
| "replaceSpaces rep (c # cs) =
     (if isSpace c then rep @ replaceSpaces rep (dropWhile isSpace cs)
      else c # replaceSpaces rep cs)"
  by pat_completeness auto
termination
  by (relation "measure (\<lambda>(rep, s). length s)") (auto simp: less_Suc_eq_le length_dropWhile_le)

definition endsWith :: "string \<Rightarrow> string \<Rightarrow> bool" where
  "endsWith s suf \<longleftrightarrow> length suf \<le> length s \<and> drop (length s - length suf) s = suf"

definition startsWith :: "string \<Rightarrow> string \<Rightarrow> bool" where
  "startsWith s pre \<longleftrightarrow> take (length pre) s = pre"

fun decimal :: "nat \<Rightarrow> string" where
  "decimal n = (if n < 10 then [''0123456789'' ! n]
                else decimal (n div 10) @ [''0123456789'' ! (n mod 10)])"

declare decimal.simps [simp del]

definition b64 :: "nat \<Rightarrow> char" where
  "b64 n = ''ABCDEFGHIJKLMNOPQRSTUVWXYZabcdefghijklmnopqrstuvwxyz0123456789+/'' ! n"

fun base64 :: "nat list \<Rightarrow> string" where
  "base64 (a # b # c # rest) =
     [b64 (a div 4), b64 ((a mod 4) * 16 + b div 16), b64 ((b mod 16) * 4 + c div 64),
      b64 (c mod 64)] @ base64 rest"
| "base64 [a, b] =
     [b64 (a div 4), b64 ((a mod 4) * 16 + b div 16), b64 ((b mod 16) * 4), CHR ''='']"
| "base64 [a] = [b64 (a div 4), b64 ((a mod 4) * 16), CHR ''='', CHR ''='']"
| "base64 [] = []"

definition utf8 :: "string \<Rightarrow> nat list" where
  "utf8 s = map of_char s"


definition path_join :: "string \<Rightarrow> string \<Rightarrow> string" where
  "path_join dir name =
     (if dir = [] then name
      else if last dir = CHR ''/'' then dir @ name
      else dir @ ''/'' @ name)"

definition path_basename :: "string \<Rightarrow> string" where
  "path_basename p =
     rev (takeWhile (\<lambda>c. c \<noteq> CHR ''/'') (dropWhile (\<lambda>c. c = CHR ''/'') (rev p)))"

definition path_dirname :: "string \<Rightarrow> string" where
  "path_dirname p =
     (if p = [] then ''.''
      else let hasRoot = (hd p = CHR ''/'');
               upto = dropWhile (\<lambda>c. c \<noteq> CHR ''/'') (dropWhile (\<lambda>c. c = CHR ''/'') (rev p));
               end = length upto - 1
           in if length upto \<le> 1 then (if hasRoot then ''/'' else ''.'')
              else if hasRoot \<and> end = 1 then ''//''
              else take end p)"

definition path_relative :: "string \<Rightarrow> string \<Rightarrow> string" where
  "path_relative from to = dropWhile (\<lambda>c. c = CHR ''/'') (drop (length from) to)"

fun replaceBackslashes :: "string \<Rightarrow> string" where
  "replaceBackslashes [] = []"
| "replaceBackslashes (c # cs) =
     (if c = CHR 0x5C then '' / '' @ replaceBackslashes cs else c # replaceBackslashes cs)"

subsection \<open>The file tree and the \<^verbatim>\<open>read-directory\<close> handler (\<^verbatim>\<open>main.js\<close>)\<close>

text \<open>
  What \<^verbatim>\<open>fs.readdirSync(p, { withFileTypes: true })\<close> shows of a path: a regular file, a
  directory with its modification time and its entries in the order the system lists
  them, a directory whose listing throws (\<open>DeniedDir\<close>), or an entry that is neither a file
  nor a directory (a symbolic link, a socket). A path that does not exist is \<open>None\<close>.
\<close>

datatype fsnode = FileNode | OtherNode | DeniedDir | DirNode nat "(string \<times> fsnode) list"

fun isDirectory :: "fsnode \<Rightarrow> bool" where
  "isDirectory (DirNode m es) = True"
| "isDirectory DeniedDir = True"
| "isDirectory FileNode = False"
| "isDirectory OtherNode = False"

fun isFile :: "fsnode \<Rightarrow> bool" where
  "isFile FileNode = True"
| "isFile OtherNode = False"
| "isFile DeniedDir = False"
| "isFile (DirNode m es) = False"

record ComicFolder =
  cf_id :: string
  cf_title :: string
  cf_displayTitle :: "string option"
  cf_folderPath :: string
  cf_coverImage :: "string option"
  cf_totalPages :: nat
  cf_pages :: "string list"
  cf_lastModified :: nat
  cf_author :: "string option"
  cf_depth :: "nat option"

record DirectoryScanResult =
  sr_comics :: "ComicFolder list"
  sr_totalComics :: nat
  sr_errors :: "string list"

definition maxDepth :: nat where
  "maxDepth = 10"

definition imageExtensions :: "string list" where
  "imageExtensions = [''jpg'', ''jpeg'', ''png'', ''webp'', ''gif'']"

definition isImageName :: "string \<Rightarrow> bool" where
  "isImageName name \<longleftrightarrow> (\<exists>ext \<in> set imageExtensions. endsWith (toLowerCase name) (''.'' @ ext))"

definition visibleName :: "string \<Rightarrow> bool" where
  "visibleName name \<longleftrightarrow> \<not> startsWith name ''.'' \<and> name \<noteq> ''__MACOSX''"

definition imageFilesOf :: "(string \<times> fsnode) list \<Rightarrow> string list" where
  "imageFilesOf dirContents =
     sort (map fst (filter (\<lambda>item. isFile (snd item) \<and> isImageName (fst item)) dirContents))"

definition makeComicFolder :: "string \<Rightarrow> string \<Rightarrow> string \<Rightarrow> nat \<Rightarrow> nat \<Rightarrow> string list \<Rightarrow> ComicFolder" where
  "makeComicFolder directoryPath fullPath name depth mtime imageFiles =
     \<lparr> cf_id = replaceSpaces ''-'' (toLowerCase name) @ ''-'' @ decimal depth @ ''-'' @
               take 8 (base64 (utf8 fullPath)),
       cf_title = name,
       cf_displayTitle = Some (replaceBackslashes (path_relative directoryPath fullPath)),
       cf_folderPath = fullPath,
       cf_coverImage = Some (''file://'' @ path_join fullPath (hd imageFiles)),
       cf_totalPages = length imageFiles,
       cf_pages = map (\<lambda>f. ''file://'' @ path_join fullPath f) imageFiles,
       cf_lastModified = mtime,
       cf_author = Some (path_basename (path_dirname fullPath)),
       cf_depth = Some depth \<rparr>"

text \<open>
  \<^verbatim>\<open>scanForComics(dirPath, depth)\<close>; the third argument is the node found at \<open>dirPath\<close>.
  \<open>scanEntries\<close> is the body of the \<^verbatim>\<open>for (const dirent of files)\<close> loop. Both
  \<^verbatim>\<open>catch\<close> blocks only log: a listing that throws contributes no record, be it the
  listing of \<open>dirPath\<close> (a node that is no readable directory) or the listing of a
  subdirectory (an entry \<open>DeniedDir\<close>). Entries that are no directories, hidden entries and
  \<^verbatim>\<open>__MACOSX\<close> are skipped.
\<close>

fun scanForComics :: "string \<Rightarrow> string \<Rightarrow> fsnode \<Rightarrow> nat \<Rightarrow> ComicFolder list"
  and scanEntries :: "string \<Rightarrow> string \<Rightarrow> (string \<times> fsnode) list \<Rightarrow> nat \<Rightarrow> ComicFolder list"
where
  "scanForComics directoryPath dirPath (DirNode mtime files) depth =
     (if depth > maxDepth then [] else scanEntries directoryPath dirPath files depth)"
| "scanForComics directoryPath dirPath DeniedDir depth = []"
| "scanForComics directoryPath dirPath FileNode depth = []"
| "scanForComics directoryPath dirPath OtherNode depth = []"
| "scanEntries directoryPath dirPath [] depth = []"
| "scanEntries directoryPath dirPath ((name, DirNode mtime dirContents) # rest) depth =
     (if visibleName name then
        (let fullPath = path_join dirPath name;
             imageFiles = imageFilesOf dirContents
         in if length imageFiles > 0
            then [makeComicFolder directoryPath fullPath name depth mtime imageFiles]
            else scanForComics directoryPath fullPath (DirNode mtime dirContents) (depth + 1))
      else [])
     @ scanEntries directoryPath dirPath rest depth"
| "scanEntries directoryPath dirPath ((name, DeniedDir) # rest) depth =
     scanEntries directoryPath dirPath rest depth"
| "scanEntries directoryPath dirPath ((name, FileNode) # rest) depth =
     scanEntries directoryPath dirPath rest depth"
| "scanEntries directoryPath dirPath ((name, OtherNode) # rest) depth =
     scanEntries directoryPath dirPath rest depth"

text \<open>
  The \<^verbatim>\<open>read-directory\<close> handler. \<^verbatim>\<open>scanForComics\<close> catches every exception itself, so the
  \<^verbatim>\<open>catch\<close> of the handler (which would return no comics and one error text) is never
  entered, and the error list is the empty list of the \<^verbatim>\<open>try\<close> branch. A root that does
  not exist makes \<^verbatim>\<open>readdirSync\<close> throw inside \<^verbatim>\<open>scanForComics\<close>, which returns no record.
\<close>

definition read_directory :: "string \<Rightarrow> fsnode option \<Rightarrow> DirectoryScanResult" where
  "read_directory directoryPath root =
     (let comics = (case root of
                      None \<Rightarrow> []
                    | Some node \<Rightarrow> scanForComics directoryPath directoryPath node 0)
      in \<lparr> sr_comics = comics, sr_totalComics = length comics, sr_errors = [] \<rparr>)"

subsection \<open>The sibling scanner (\<^verbatim>\<open>electron/scanDirectory.cjs\<close>)\<close>

text \<open>
  One level only. The listing of a folder is taken without file types, so every entry name
  is tested by \<open>isImageFile\<close>. The text of a caught exception is \<open>thrown p\<close> for the path
  \<open>p\<close> whose listing failed.
\<close>

definition isImageFile :: "string \<Rightarrow> bool" where
  "isImageFile fileName \<longleftrightarrow>
     (\<exists>ext \<in> set [''jpg'', ''jpeg'', ''png'', ''gif'', ''webp'', ''bmp''].
        endsWith (toLowerCase fileName) (''.'' @ ext))"

fun scanFolders ::
  "(string \<Rightarrow> string) \<Rightarrow> string \<Rightarrow> (string \<times> fsnode) list \<Rightarrow> ComicFolder list \<times> string list" where
  "scanFolders thrown directoryPath [] = ([], [])"
| "scanFolders thrown directoryPath ((name, node) # rest) =
     (let (comics, errors) = scanFolders thrown directoryPath rest;
          folderPth = path_join directoryPath name
      in if isDirectory node \<and> visibleName name then
           (case node of
              DirNode mtime files \<Rightarrow>
                (let imageFiles = sort (filter isImageFile (map fst files));
                     pageList = map (\<lambda>img. ''file://'' @ path_join folderPth img) imageFiles
                 in (\<lparr> cf_id = replaceSpaces ''-'' (toLowerCase name),
                        cf_title = name,
                        cf_displayTitle = None,
                        cf_folderPath = folderPth,
                        cf_coverImage = (case pageList of [] \<Rightarrow> None | p # ps \<Rightarrow> Some p),
                        cf_totalPages = length pageList,
                        cf_pages = pageList,
                        cf_lastModified = mtime,
                        cf_author = None,
                        cf_depth = None \<rparr> # comics, errors))
            | _ \<Rightarrow>
                (comics,
                 (''Failed to process folder '' @ [CHR 0x22] @ name @ [CHR 0x22] @ '': '' @
                    thrown folderPth) # errors))
         else (comics, errors))"

definition scanDirectoryForComics ::
  "(string \<Rightarrow> string) \<Rightarrow> string \<Rightarrow> fsnode option \<Rightarrow> DirectoryScanResult" where
  "scanDirectoryForComics thrown directoryPath root =
     (case root of
        Some (DirNode mtime entries) \<Rightarrow>
          (let (comics, errors) = scanFolders thrown directoryPath entries
           in \<lparr> sr_comics = comics, sr_totalComics = length comics, sr_errors = errors \<rparr>)
      | _ \<Rightarrow>
          \<lparr> sr_comics = [], sr_totalComics = 0,
            sr_errors = [''Failed to scan directory: '' @ thrown directoryPath] \<rparr>)"

subsection \<open>Well-formed listings\<close>

text \<open>
  A directory listing names every entry once; a name is not empty and holds no separator.
\<close>

definition plainName :: "string \<Rightarrow> bool" where
  "plainName name \<longleftrightarrow> name \<noteq> [] \<and> CHR ''/'' \<notin> set name"

fun wellFormed :: "fsnode \<Rightarrow> bool"
  and wellFormedEntries :: "(string \<times> fsnode) list \<Rightarrow> bool"
where
  "wellFormed (DirNode mtime entries) \<longleftrightarrow>
     distinct (map fst entries) \<and> wellFormedEntries entries"
| "wellFormed FileNode \<longleftrightarrow> True"
| "wellFormed OtherNode \<longleftrightarrow> True"
| "wellFormed DeniedDir \<longleftrightarrow> True"
| "wellFormedEntries [] \<longleftrightarrow> True"
| "wellFormedEntries ((name, node) # rest) \<longleftrightarrow>
     plainName name \<and> wellFormed node \<and> wellFormedEntries rest"

subsection \<open>The disk and the file handlers of \<^verbatim>\<open>main.js\<close>\<close>

record IndexEntry =
  ix_title :: string
  ix_folderPath :: string
  ix_lastModified :: string

text \<open>The \<^verbatim>\<open>comics\<close> object of the index (\<open>ix_comics\<close>) keeps its keys in insertion order (ids are not
  array indices), so it is an association list.\<close>

record LibraryIndex =
  ix_comics :: "(string \<times> IndexEntry) list"
  lastScan :: string
  totalComics :: nat

record GenreCatalog =
  personality :: "string list"
  verb :: "string list"
  plot :: "string list"

text \<open>The JSON documents of the application; \<open>Unparsable\<close> is a file on which
  \<^verbatim>\<open>JSON.parse\<close> throws.\<close>

datatype document = ComicDoc Comic | IndexDoc LibraryIndex | GenresDoc GenreCatalog | Unparsable

text \<open>
  The disk as the handlers see it: the JSON files by path, the paths on which
  \<^verbatim>\<open>fs.writeFileSync\<close> throws, the folders by path, and the paths on which
  \<^verbatim>\<open>fs.renameSync\<close> throws.
\<close>

record Disk =
  jsonFiles :: "string \<rightharpoonup> document"
  unwritable :: "string set"
  folders :: "string \<rightharpoonup> fsnode"
  locked :: "string set"

definition existsSync :: "Disk \<Rightarrow> string \<Rightarrow> bool" where
  "existsSync d p \<longleftrightarrow> jsonFiles d p \<noteq> None \<or> folders d p \<noteq> None"

definition file_exists :: "Disk \<Rightarrow> string \<Rightarrow> bool" where
  "file_exists d filePath = existsSync d filePath"

text \<open>\<^verbatim>\<open>read-file\<close>: a path without a JSON file (none at all, or a folder) and a file that
  does not parse both end in the \<^verbatim>\<open>catch\<close> and give \<^verbatim>\<open>null\<close>.\<close>

definition read_file :: "Disk \<Rightarrow> string \<Rightarrow> document option" where
  "read_file d filePath =
     (case jsonFiles d filePath of
        None \<Rightarrow> None
      | Some Unparsable \<Rightarrow> None
      | Some doc \<Rightarrow> Some doc)"

definition write_file :: "Disk \<Rightarrow> string \<Rightarrow> document \<Rightarrow> bool \<times> Disk" where
  "write_file d filePath doc =
     (if filePath \<in> unwritable d then (False, d)
      else (True, d\<lparr> jsonFiles := (jsonFiles d)(filePath \<mapsto> doc) \<rparr>))"

definition under :: "string \<Rightarrow> string \<Rightarrow> bool" where
  "under dir p \<longleftrightarrow> p = dir \<or> startsWith p (dir @ ''/'')"

definition movePath :: "string \<Rightarrow> string \<Rightarrow> (string \<rightharpoonup> 'a) \<Rightarrow> (string \<rightharpoonup> 'a)" where
  "movePath oldPath newPath m =
     (\<lambda>p. if under newPath p then m (oldPath @ drop (length newPath) p)
          else if under oldPath p then None
          else m p)"

definition rename_folder :: "Disk \<Rightarrow> string \<Rightarrow> string \<Rightarrow> bool \<times> Disk" where
  "rename_folder d oldPath newPath =
     (if \<not> existsSync d oldPath then (False, d)
      else if existsSync d newPath then (False, d)
      else if oldPath \<in> locked d then (False, d)
      else (True, d\<lparr> jsonFiles := movePath oldPath newPath (jsonFiles d),
                      folders := movePath oldPath newPath (folders d) \<rparr>))"

subsection \<open>The store (\<^verbatim>\<open>utils/fileStorage.ts\<close>)\<close>

text \<open>\<^verbatim>\<open>preload.js\<close> exposes \<^verbatim>\<open>electronAPI\<close> with \<^verbatim>\<open>isElectron: true\<close>.\<close>

definition isElectron :: bool where
  "isElectron = True"

record Storage =
  dataPath :: string
  comicsPath :: string
  libraryIndex :: LibraryIndex
  data_genres :: GenreCatalog

definition readFile :: "Disk \<Rightarrow> string \<Rightarrow> document option" where
  "readFile d filePath =
     (if \<not> isElectron then None
      else if \<not> file_exists d filePath then None
      else read_file d filePath)"

definition writeFile :: "Disk \<Rightarrow> string \<Rightarrow> document \<Rightarrow> bool \<times> Disk" where
  "writeFile d filePath doc = (if \<not> isElectron then (False, d) else write_file d filePath doc)"

text \<open>\<^verbatim>\<open>initializeStorage\<close> sets \<^verbatim>\<open>comicsPath\<close> to \<^verbatim>\<open>`${this.dataPath}/comics`\<close>.\<close>

definition storePaths :: "Storage \<Rightarrow> bool" where
  "storePaths st \<longleftrightarrow> comicsPath st = dataPath st @ ''/comics''"

definition comicFilePath :: "Storage \<Rightarrow> string \<Rightarrow> string" where
  "comicFilePath st cid = comicsPath st @ ''/'' @ (''comic_'' @ cid @ ''.json'')"

definition indexFilePath :: "Storage \<Rightarrow> string" where
  "indexFilePath st = dataPath st @ ''/library_index.json''"

text \<open>
  \<open>now\<close> is \<^verbatim>\<open>new Date().toISOString()\<close>; one instant stands for all time stamps of an
  operation. The write handler catches every exception and answers false, so no write
  throws. \<open>saveComic\<close> inspects the answer of the first write only; the answer of the index
  write (\<open>written\<close>) is dropped, as it is in \<open>deleteComic\<close>, \<open>saveComics\<close> and \<open>setGenres\<close>.
\<close>

definition saveComic :: "string \<Rightarrow> Storage \<Rightarrow> Disk \<Rightarrow> Comic \<Rightarrow> bool \<times> Storage \<times> Disk" where
  "saveComic now st d comic =
     (if \<not> isElectron then (False, st, d)
      else
        let filePath = comicFilePath st (comicId comic);
            (success, d1) = writeFile d filePath (ComicDoc comic)
        in if success then
             (let st1 = st\<lparr> libraryIndex := (libraryIndex st)\<lparr> ix_comics :=
                          AList.update (comicId comic)
                            \<lparr> ix_title = title comic, ix_folderPath = folderPath comic,
                              ix_lastModified = now \<rparr>
                            (ix_comics (libraryIndex st)) \<rparr> \<rparr>;
                  (written, d2) = writeFile d1 (indexFilePath st1) (IndexDoc (libraryIndex st1))
              in (True, st1, d2))
           else (False, st, d1))"

text \<open>The store after \<open>saveComic\<close> has entered a comic into the index in memory.\<close>

definition indexed :: "Storage \<Rightarrow> string \<Rightarrow> Comic \<Rightarrow> Storage" where
  "indexed st now comic =
     st\<lparr> libraryIndex := (libraryIndex st)\<lparr> ix_comics :=
           AList.update (comicId comic)
             \<lparr> ix_title = title comic, ix_folderPath = folderPath comic, ix_lastModified = now \<rparr>
             (ix_comics (libraryIndex st)) \<rparr> \<rparr>"

text \<open>A file that holds a document of another kind has no reading as \<^verbatim>\<open>ComicData\<close>; it
  is read as absent.\<close>

definition getComic :: "Storage \<Rightarrow> Disk \<Rightarrow> string \<Rightarrow> Comic option" where
  "getComic st d cid =
     (if \<not> isElectron then None
      else case readFile d (comicFilePath st cid) of
             Some (ComicDoc comic) \<Rightarrow> Some comic
           | _ \<Rightarrow> None)"

definition deleteComic :: "Storage \<Rightarrow> Disk \<Rightarrow> string \<Rightarrow> bool \<times> Storage \<times> Disk" where
  "deleteComic st d cid =
     (if \<not> isElectron then (False, st, d)
      else
        let st1 = st\<lparr> libraryIndex := (libraryIndex st)\<lparr> ix_comics :=
                     AList.delete cid (ix_comics (libraryIndex st)) \<rparr> \<rparr>;
            (written, d1) = writeFile d (indexFilePath st1) (IndexDoc (libraryIndex st1))
        in (True, st1, d1))"

fun saveEach :: "string \<Rightarrow> Storage \<Rightarrow> Disk \<Rightarrow> Comic list \<Rightarrow> Storage \<times> Disk" where
  "saveEach now st d [] = (st, d)"
| "saveEach now st d (comic # rest) =
     (case saveComic now st d comic of (saved, st1, d1) \<Rightarrow> saveEach now st1 d1 rest)"

definition saveComics :: "string \<Rightarrow> Storage \<Rightarrow> Disk \<Rightarrow> Comic list \<Rightarrow> bool \<times> Storage \<times> Disk" where
  "saveComics now st d cs =
     (if \<not> isElectron then (False, st, d)
      else
        let (st1, d1) = saveEach now st d cs;
            st2 = st1\<lparr> libraryIndex := (libraryIndex st1)\<lparr> totalComics := length cs,
                                                            lastScan := now \<rparr> \<rparr>;
            (written, d2) = writeFile d1 (indexFilePath st2) (IndexDoc (libraryIndex st2))
        in (True, st2, d2))"

definition getAllComics :: "Storage \<Rightarrow> Disk \<Rightarrow> Comic list" where
  "getAllComics st d =
     (if \<not> isElectron then []
      else List.map_filter (\<lambda>entry. getComic st d (fst entry)) (ix_comics (libraryIndex st)))"

definition getLibrary :: "Storage \<Rightarrow> Disk \<Rightarrow> Comic list" where
  "getLibrary st d = getAllComics st d"

definition genresFilePath :: "Storage \<Rightarrow> string" where
  "genresFilePath st = dataPath st @ ''/genres.json''"

definition setGenres :: "Storage \<Rightarrow> Disk \<Rightarrow> GenreCatalog \<Rightarrow> Storage \<times> Disk" where
  "setGenres st d g =
     (if isElectron then
        (let st1 = st\<lparr> data_genres := g \<rparr>;
             (written, d1) = writeFile d (genresFilePath st1) (GenresDoc g)
         in (st1, d1))
      else (st, d))"

subsubsection \<open>Folder renaming\<close>

definition invalidChar :: "char \<Rightarrow> bool" where
  "invalidChar c \<longleftrightarrow> c \<in> set [CHR ''<'', CHR ''>'', CHR '':'', CHR 0x22, CHR ''/'', CHR 0x5C,
                                 CHR ''|'', CHR ''?'', CHR ''*'']"

definition trim :: "string \<Rightarrow> string" where
  "trim s = rev (dropWhile isSpace (rev (dropWhile isSpace s)))"

definition sanitizeTitle :: "string \<Rightarrow> string" where
  "sanitizeTitle t =
     trim (replaceSpaces '' '' (map (\<lambda>c. if invalidChar c then CHR ''_'' else c) t))"

text \<open>\<^verbatim>\<open>oldPath.substring(0, oldPath.lastIndexOf('/'))\<close>: the text before the last separator,
  empty when there is none.\<close>

definition beforeLastSlash :: "string \<Rightarrow> string" where
  "beforeLastSlash p = rev (drop 1 (dropWhile (\<lambda>c. c \<noteq> CHR ''/'') (rev p)))"

definition renameComicFolder ::
  "Storage \<Rightarrow> Disk \<Rightarrow> string \<Rightarrow> string \<Rightarrow> string \<Rightarrow> string option \<times> Storage \<times> Disk" where
  "renameComicFolder st d oldTitle newTitle oldPath =
     (if \<not> isElectron then (None, st, d)
      else
        let oldFolderName = sanitizeTitle oldTitle;
            newFolderName = sanitizeTitle newTitle
        in if oldFolderName = newFolderName then (Some oldPath, st, d)
           else
             (let directoryPath = beforeLastSlash oldPath;
                  newPath = directoryPath @ ''/'' @ newFolderName;
                  (success, d1) = rename_folder d oldPath newPath
              in if success then (Some newPath, st, d1) else (None, st, d1)))"

subsection \<open>The merge step (\<^verbatim>\<open>ComicsLibrary\<close>)\<close>

text \<open>\<^verbatim>\<open>x || fallback\<close> on an optional string: an absent and an empty string are both
  falsy.\<close>

definition orElse :: "string option \<Rightarrow> string \<Rightarrow> string" where
  "orElse x fallback = (case x of Some s \<Rightarrow> (if s = [] then fallback else s) | None \<Rightarrow> fallback)"

definition convertComicFolderToComic :: "Storage \<Rightarrow> Disk \<Rightarrow> ComicFolder \<Rightarrow> Comic" where
  "convertComicFolderToComic st d comicFolder =
     (let cover = orElse (cf_coverImage comicFolder) ''/placeholder.svg'';
          metadata = getComic st d (cf_id comicFolder)
      in \<lparr> comicId = cf_id comicFolder,
           title = orElse (map_option title metadata) (cf_title comicFolder),
           displayTitle = None,
           author = Some (orElse (Option.bind metadata author) ''Unknown''),
           groupAuthor = None,
           genres = [],
           comicGenres = Option.bind metadata comicGenres,
           genre = Option.bind metadata genre,
           tags = None,
           description = Option.bind metadata description,
           releaseDate = None,
           lastRead = Some (cf_lastModified comicFolder),
           lastReadPage = None,
           lastReadDate = None,
           coverImage = cover,
           totalPages = cf_totalPages comicFolder,
           currentPage = 1,
           folderPath = cf_folderPath comicFolder,
           pages = Some (cf_pages comicFolder),
           comicDepth = None \<rparr>)"

text \<open>\<^verbatim>\<open>handleRefresh\<close> (and \<^verbatim>\<open>handleScanDirectory\<close>): scan, convert every scanned folder
  against the store as it is, then save all converted comics. The component state is the
  returned list.\<close>

definition handleRefresh ::
  "string \<Rightarrow> Storage \<Rightarrow> Disk \<Rightarrow> string \<Rightarrow> fsnode option \<Rightarrow> Comic list \<times> Storage \<times> Disk" where
  "handleRefresh now st d targetDirectory root =
     (let result = read_directory targetDirectory root;
          convertedComics = map (convertComicFolderToComic st d) (sr_comics result);
          (saved, st1, d1) = saveComics now st d convertedComics
      in (convertedComics, st1, d1))"

subsection \<open>Usage-checked tag deletion (\<^verbatim>\<open>GenreManager\<close>)\<close>

datatype GenreCatalogType = Personality | Verb | Plot

fun catalogGet :: "GenreCatalog \<Rightarrow> GenreCatalogType \<Rightarrow> string list" where
  "catalogGet g Personality = personality g"
| "catalogGet g Verb = verb g"
| "catalogGet g Plot = plot g"

fun catalogSet :: "GenreCatalog \<Rightarrow> GenreCatalogType \<Rightarrow> string list \<Rightarrow> GenreCatalog" where
  "catalogSet g Personality xs = g\<lparr> personality := xs \<rparr>"
| "catalogSet g Verb xs = g\<lparr> verb := xs \<rparr>"
| "catalogSet g Plot xs = g\<lparr> plot := xs \<rparr>"

record AffectedComic =
  ac_id :: string
  ac_title :: string
  ac_folderPath :: string

record GenreSelection =
  gs_category :: GenreCatalogType
  gs_index :: nat
  gs_value :: string

record GenreManager =
  gm_genres :: GenreCatalog
  gm_selectedGenre :: "GenreSelection option"
  gm_showDeleteAlert :: bool
  gm_genreToDelete :: "GenreSelection option"
  gm_affectedComics :: "AffectedComic list"

text \<open>\<^verbatim>\<open>Object.values(comic.comicGenres).some(genreList => Array.isArray(genreList) && genreList.includes(value))\<close>\<close>

definition hasGenre :: "Comic \<Rightarrow> string \<Rightarrow> bool" where
  "hasGenre comic v =
     (case comicGenres comic of
        None \<Rightarrow> False
      | Some g \<Rightarrow>
          (\<exists>genreList \<in> set [protagonist g, antagonist g, supporting g, narrative g].
             case genreList of None \<Rightarrow> False | Some xs \<Rightarrow> v \<in> set xs))"

text \<open>\<^verbatim>\<open>comic.folderPath || comic.title\<close>\<close>

definition uniqueKey :: "Comic \<Rightarrow> string" where
  "uniqueKey comic = (if folderPath comic \<noteq> [] then folderPath comic else title comic)"

text \<open>The \<^verbatim>\<open>forEach\<close> over all comics; the \<^verbatim>\<open>Map\<close> is an association list in insertion
  order, and a key that is present is never set again.\<close>

fun collectAffected ::
  "string \<Rightarrow> (string \<times> AffectedComic) list \<Rightarrow> Comic list \<Rightarrow> (string \<times> AffectedComic) list" where
  "collectAffected v uniqueAffectedComics [] = uniqueAffectedComics"
| "collectAffected v uniqueAffectedComics (comic # rest) =
     (if hasGenre comic v \<and> uniqueKey comic \<notin> fst ` set uniqueAffectedComics
      then collectAffected v
             (uniqueAffectedComics @
                [(uniqueKey comic,
                  \<lparr> ac_id = comicId comic, ac_title = title comic,
                    ac_folderPath = folderPath comic \<rparr>)])
             rest
      else collectAffected v uniqueAffectedComics rest)"

text \<open>\<^verbatim>\<open>xs.filter((_, i) => i !== index)\<close>\<close>

definition removeAt :: "nat \<Rightarrow> 'a list \<Rightarrow> 'a list" where
  "removeAt index xs = map snd (filter (\<lambda>p. fst p \<noteq> index) (enumerate 0 xs))"

definition saveGenres ::
  "GenreManager \<Rightarrow> Storage \<Rightarrow> Disk \<Rightarrow> GenreCatalog \<Rightarrow> GenreManager \<times> Storage \<times> Disk" where
  "saveGenres gm st d newGenres =
     (let (st1, d1) = setGenres st d newGenres
      in (gm\<lparr> gm_genres := newGenres \<rparr>, st1, d1))"

definition checkGenreUsage ::
  "GenreManager \<Rightarrow> Storage \<Rightarrow> Disk \<Rightarrow> GenreCatalogType \<Rightarrow> nat \<Rightarrow> string
     \<Rightarrow> GenreManager \<times> Storage \<times> Disk" where
  "checkGenreUsage gm st d category index v =
     (let allComics = getLibrary st d;
          affected = map snd (collectAffected v [] allComics);
          gm1 = gm\<lparr> gm_affectedComics := affected \<rparr>
      in if length affected = 0 then
           (let newGenres = catalogSet (gm_genres gm1) category
                              (removeAt index (catalogGet (gm_genres gm1) category));
                (gm2, st1, d1) = saveGenres gm1 st d newGenres
            in (gm2\<lparr> gm_selectedGenre := None \<rparr>, st1, d1))
         else
           (gm1\<lparr> gm_genreToDelete :=
                    Some \<lparr> gs_category = category, gs_index = index, gs_value = v \<rparr>,
                  gm_showDeleteAlert := True \<rparr>, st, d))"

text \<open>
  \<open>keepsEdits m x\<close>: the record \<open>x\<close> carries the user-editable fields of the persisted
  record \<open>m\<close>: its description and its genre tiers as they are, its title when that is
  not empty, its author when that is present and not empty. \<open>holdsEdits m p d\<close>: the file
  at \<open>p\<close> holds such a record.
\<close>

definition keepsEdits :: "Comic \<Rightarrow> Comic \<Rightarrow> bool" where
  "keepsEdits m x \<longleftrightarrow>
     description x = description m \<and> comicGenres x = comicGenres m \<and>
     (title m \<noteq> [] \<longrightarrow> title x = title m) \<and>
     (case author m of Some a \<Rightarrow> a \<noteq> [] \<longrightarrow> author x = Some a | None \<Rightarrow> True)"

definition holdsEdits :: "Comic \<Rightarrow> string \<Rightarrow> Disk \<Rightarrow> bool" where
  "holdsEdits m p d \<longleftrightarrow> (\<exists>x. jsonFiles d p = Some (ComicDoc x) \<and> keepsEdits m x)"

text \<open>
  The reading of the specification, to compare with \<open>collectAffected\<close>: de-duplication by
  a key, the first element of every key kept, in the order of the list.
\<close>

function dedupBy :: "('a \<Rightarrow> 'k) \<Rightarrow> 'a list \<Rightarrow> 'a list" where
  "dedupBy key [] = []"
| "dedupBy key (x # xs) = x # dedupBy key (filter (\<lambda>y. key y \<noteq> key x) xs)"
  by pat_completeness auto
termination
  by (relation "measure (\<lambda>(key, xs). length xs)") (auto simp: less_Suc_eq_le)

definition toAffected :: "Comic \<Rightarrow> AffectedComic" where
  "toAffected comic = \<lparr> ac_id = comicId comic, ac_title = title comic, ac_folderPath = folderPath comic \<rparr>"

text \<open>The projection stored for an affected comic, and the comics that carry a tag.\<close>

definition taggedWith :: "string \<Rightarrow> Comic list \<Rightarrow> Comic list" where
  "taggedWith v cs = filter (\<lambda>c. hasGenre c v) cs"

subsection \<open>Folders the scan reaches\<close>

text \<open>
  \<open>joinPrefix dir\<close> is what \<open>path_join dir\<close> puts before a name, and \<open>belowEntry dir name p\<close>
  says that the path \<open>p\<close> is the entry \<open>name\<close> of \<open>dir\<close> or lies below it.
\<close>

definition joinPrefix :: "string \<Rightarrow> string" where
  "joinPrefix dir = (if dir = [] then [] else if last dir = CHR ''/'' then dir else dir @ ''/'')"

definition belowEntry :: "string \<Rightarrow> string \<Rightarrow> string \<Rightarrow> bool" where
  "belowEntry dir name p \<longleftrightarrow>
     (\<exists>rest. p = path_join dir name @ rest \<and> (rest = [] \<or> hd rest = CHR ''/''))"

text \<open>
  \<open>examines dirPath node depth fullPath name child d\<close>: the scan of \<open>node\<close> at \<open>dirPath\<close>,
  started at \<open>depth\<close>, finds the entry \<open>name\<close> with node \<open>child\<close> at \<open>fullPath\<close> while it
  lists a directory at depth \<open>d\<close>. The entries of the scanned directory are found
  directly; the scan descends into a visible directory without image files and finds the
  entries there one level deeper. No listing is read beyond \<open>maxDepth\<close>.
\<close>

inductive examines :: "string \<Rightarrow> fsnode \<Rightarrow> nat \<Rightarrow> string \<Rightarrow> string \<Rightarrow> fsnode \<Rightarrow> nat \<Rightarrow> bool" where
  direct: "(name, child) \<in> set es \<Longrightarrow> depth \<le> maxDepth \<Longrightarrow>
           examines dp (DirNode pm es) depth (path_join dp name) name child depth"
| deeper: "(n, DirNode m ces) \<in> set es \<Longrightarrow> depth \<le> maxDepth \<Longrightarrow> visibleName n \<Longrightarrow>
           imageFilesOf ces = [] \<Longrightarrow>
           examines (path_join dp n) (DirNode m ces) (depth + 1) fp name child d \<Longrightarrow>
           examines dp (DirNode pm es) depth fp name child d"

code_pred examines .

subsection \<open>Example data\<close>

definition exComicA :: Comic where
  "exComicA = \<lparr> comicId = ''seriesx-1-L0xpYi9B'', title = ''SeriesX'', displayTitle = None,
     author = Some ''X'', groupAuthor = None, genres = [],
     comicGenres = Some \<lparr> protagonist = Some [''brave''], antagonist = Some [],
                            supporting = Some [], narrative = Some [] \<rparr>,
     genre = None, tags = None, description = Some ''first'', releaseDate = None,
     lastRead = Some 5, lastReadPage = None, lastReadDate = None,
     coverImage = ''file:///Lib/AuthorA/SeriesX/1.jpg'', totalPages = 2, currentPage = 1,
     folderPath = ''/Lib/AuthorA/SeriesX'',
     pages = Some [''file:///Lib/AuthorA/SeriesX/1.jpg'', ''file:///Lib/AuthorA/SeriesX/2.png''],
     comicDepth = None \<rparr>"

definition exComicB :: Comic where
  "exComicB = \<lparr> comicId = ''authorb-0-L0xpYi9B'', title = ''AuthorB'', displayTitle = None,
     author = Some [], groupAuthor = None, genres = [], comicGenres = None,
     genre = None, tags = None, description = None, releaseDate = None,
     lastRead = Some 6, lastReadPage = None, lastReadDate = None,
     coverImage = ''file:///Lib/AuthorB/a.jpg'', totalPages = 1, currentPage = 1,
     folderPath = ''/Lib/AuthorB'', pages = Some [''file:///Lib/AuthorB/a.jpg''],
     comicDepth = None \<rparr>"



definition exIdA :: string where
  "exIdA = ''seriesx-1-L0xpYi9B''"

definition exIdB :: string where
  "exIdB = ''authorb-0-L0xpYi9B''"

definition exLib :: fsnode where
  "exLib = DirNode 1
     [(''AuthorA'', DirNode 2
         [(''SeriesX'', DirNode 3 [(''2.png'', FileNode), (''1.jpg'', FileNode)])]),
      (''AuthorB'', DirNode 4
         [(''a.jpg'', FileNode), (''B.JPG'', FileNode), (''notes.txt'', FileNode)]),
      (''.hidden'', DirNode 5 [(''x.jpg'', FileNode)]),
      (''locked'', DeniedDir)]"

definition exIndex :: LibraryIndex where
  "exIndex = \<lparr> ix_comics =
       [(''seriesx-1-L0xpYi9B'',
         \<lparr> ix_title = ''SeriesX'', ix_folderPath = ''/Lib/AuthorA/SeriesX'',
           ix_lastModified = ''2025-01-01T00:00:00.000Z'' \<rparr>),
        (''authorb-0-L0xpYi9B'',
         \<lparr> ix_title = ''AuthorB'', ix_folderPath = ''/Lib/AuthorB'',
           ix_lastModified = ''2025-01-01T00:00:00.000Z'' \<rparr>)],
     lastScan = ''2025-01-01T00:00:00.000Z'', totalComics = 2 \<rparr>"

definition exStorage :: Storage where
  "exStorage = \<lparr> dataPath = ''/data/json'', comicsPath = ''/data/json/comics'',
     libraryIndex = exIndex,
     data_genres = \<lparr> personality = [''brave'', ''shy''], verb = [''fighting''], plot = [] \<rparr> \<rparr>"

definition exDisk :: Disk where
  "exDisk = \<lparr> jsonFiles =
       [''/data/json/comics/comic_seriesx-1-L0xpYi9B.json'' \<mapsto> ComicDoc exComicA,
        ''/data/json/comics/comic_authorb-0-L0xpYi9B.json'' \<mapsto> ComicDoc exComicB,
        ''/data/json/library_index.json'' \<mapsto> IndexDoc exIndex],
     unwritable = {},
     folders = [''/Lib/AuthorB'' \<mapsto> DirNode 4 [(''a.jpg'', FileNode)],
                ''/Lib/Taken'' \<mapsto> DirNode 6 []],
     locked = {} \<rparr>"

definition exNow :: string where
  "exNow = ''2026-01-01T00:00:00.000Z''"

definition exDiskIndexFails :: Disk where
  "exDiskIndexFails = exDisk\<lparr> unwritable := {''/data/json/library_index.json''} \<rparr>"

definition exDiskFull :: Disk where
  "exDiskFull = exDisk\<lparr> unwritable := UNIV \<rparr>"

definition exFolderA :: ComicFolder where
  "exFolderA = \<lparr> cf_id = ''seriesx-1-L0xpYi9B'', cf_title = ''SeriesX'',
     cf_displayTitle = Some ''AuthorA/SeriesX'', cf_folderPath = ''/Lib/AuthorA/SeriesX'',
     cf_coverImage = Some ''file:///Lib/AuthorA/SeriesX/1.jpg'', cf_totalPages = 2,
     cf_pages = [''file:///Lib/AuthorA/SeriesX/1.jpg'', ''file:///Lib/AuthorA/SeriesX/2.png''],
     cf_lastModified = 3, cf_author = Some ''AuthorA'', cf_depth = Some 1 \<rparr>"

definition exFolderB :: ComicFolder where
  "exFolderB = \<lparr> cf_id = ''authorb-0-L0xpYi9B'', cf_title = ''AuthorB'',
     cf_displayTitle = Some ''AuthorB'', cf_folderPath = ''/Lib/AuthorB'',
     cf_coverImage = Some ''file:///Lib/AuthorB/B.JPG'', cf_totalPages = 2,
     cf_pages = [''file:///Lib/AuthorB/B.JPG'', ''file:///Lib/AuthorB/a.jpg''],
     cf_lastModified = 4, cf_author = Some ''Lib'', cf_depth = Some 0 \<rparr>"

definition exDiskFresh :: Disk where
  "exDiskFresh = \<lparr> jsonFiles = Map.empty, unwritable = {}, folders = Map.empty, locked = {} \<rparr>"

definition exManager :: GenreManager where
  "exManager = \<lparr> gm_genres = \<lparr> personality = [''brave'', ''shy''], verb = [''fighting''], plot = [] \<rparr>,
     gm_selectedGenre = None, gm_showDeleteAlert = False, gm_genreToDelete = None,
     gm_affectedComics = [] \<rparr>"

definition exComicC :: Comic where
  "exComicC = exComicA\<lparr> comicId := ''c'', title := ''C'', folderPath := [] \<rparr>"

definition exComicD :: Comic where
  "exComicD = exComicA\<lparr> comicId := ''d'', title := ''D'', folderPath := [] \<rparr>"

definition exStorageNoPaths :: Storage where
  "exStorageNoPaths = exStorage\<lparr> libraryIndex := \<lparr> ix_comics =
       [(''c'', \<lparr> ix_title = ''C'', ix_folderPath = [], ix_lastModified = [] \<rparr>),
        (''d'', \<lparr> ix_title = ''D'', ix_folderPath = [], ix_lastModified = [] \<rparr>)],
     lastScan = [], totalComics = 2 \<rparr> \<rparr>"

definition exDiskNoPaths :: Disk where
  "exDiskNoPaths = \<lparr> jsonFiles =
       [''/data/json/comics/comic_c.json'' \<mapsto> ComicDoc exComicC,
        ''/data/json/comics/comic_d.json'' \<mapsto> ComicDoc exComicD],
     unwritable = {}, folders = Map.empty, locked = {} \<rparr>"

definition exTagBrave :: string where "exTagBrave = ''brave''"
definition exTagShy :: string where "exTagShy = ''shy''"

definition exOldTitle :: string where "exOldTitle = ''AuthorB''"
definition exNewTitle :: string where "exNewTitle = ''Taken''"
definition exSameTitle :: string where "exSameTitle = ''AuthorB ''"
definition exOldPath :: string where "exOldPath = ''/Lib/AuthorB''"
definition exGonePath :: string where "exGonePath = ''/Lib/Gone''"

definition exSeriesXFiles :: "(string \<times> fsnode) list" where
  "exSeriesXFiles = [(''2.png'', FileNode), (''1.jpg'', FileNode)]"

definition exAuthorAFiles :: "(string \<times> fsnode) list" where
  "exAuthorAFiles = [(''SeriesX'', DirNode 3 exSeriesXFiles)]"

definition exLibRest :: "(string \<times> fsnode) list" where
  "exLibRest =
     [(''AuthorB'', DirNode 4
         [(''a.jpg'', FileNode), (''B.JPG'', FileNode), (''notes.txt'', FileNode)]),
      (''.hidden'', DirNode 5 [(''x.jpg'', FileNode)]),
      (''locked'', DeniedDir)]"

definition exRootPath :: string where "exRootPath = ''/Lib''"
definition exAuthorAName :: string where "exAuthorAName = ''AuthorA''"
definition exSeriesXName :: string where "exSeriesXName = ''SeriesX''"
definition exAuthorAPath :: string where "exAuthorAPath = ''/Lib/AuthorA''"
definition exSeriesXPath :: string where "exSeriesXPath = ''/Lib/AuthorA/SeriesX''"

section \<open>Theorems\<close>

subsection \<open>Reading progress\<close>





subsection \<open>The store\<close>

lemma readFile_eq: "readFile d p = read_file d p"
  by (simp add: readFile_def read_file_def file_exists_def existsSync_def isElectron_def
      split: option.split)

lemma comic_path_not_index:
  "storePaths st \<Longrightarrow> comicFilePath st cid \<noteq> indexFilePath st"
  by (simp add: storePaths_def comicFilePath_def indexFilePath_def)

lemma comicFilePath_inj: "comicFilePath st a = comicFilePath st b \<Longrightarrow> a = b"
  by (simp add: comicFilePath_def)

lemma writeFile_ok:
  "p \<notin> unwritable d \<Longrightarrow>
     writeFile d p doc = (True, d\<lparr> jsonFiles := (jsonFiles d)(p \<mapsto> doc) \<rparr>)"
  by (simp add: writeFile_def write_file_def isElectron_def)

lemma writeFile_fail: "p \<in> unwritable d \<Longrightarrow> writeFile d p doc = (False, d)"
  by (simp add: writeFile_def write_file_def isElectron_def)

lemma writeFile_other:
  "writeFile d p doc = (ok, d') \<Longrightarrow> q \<noteq> p \<Longrightarrow> jsonFiles d' q = jsonFiles d q"
  by (auto simp: writeFile_def write_file_def split: if_splits)

lemma writeFile_frame:
  "writeFile d p doc = (ok, d') \<Longrightarrow>
     folders d' = folders d \<and> unwritable d' = unwritable d \<and> locked d' = locked d"
  by (auto simp: writeFile_def write_file_def split: if_splits)

lemma saveComic_file_fails:
  "comicFilePath st (comicId comic) \<in> unwritable d \<Longrightarrow>
     saveComic now st d comic = (False, st, d)"
  by (simp add: saveComic_def isElectron_def writeFile_fail)

lemma saveComic_file_written:
  assumes "comicFilePath st (comicId comic) \<notin> unwritable d"
  shows "saveComic now st d comic =
           (True, indexed st now comic,
            snd (writeFile
                   (d\<lparr> jsonFiles :=
                         (jsonFiles d)(comicFilePath st (comicId comic) \<mapsto> ComicDoc comic) \<rparr>)
                   (indexFilePath st) (IndexDoc (libraryIndex (indexed st now comic)))))"
  using assms
  by (simp add: saveComic_def isElectron_def writeFile_ok indexed_def indexFilePath_def
      split: prod.split)

lemma triple_collapse: "x = (fst x, fst (snd x), snd (snd x))"
  by simp

text \<open>
  C8, amended. The per-id file is written first. If that write fails, \<open>saveComic\<close> returns
  false and neither the store nor the disk changes. If it succeeds, the file holds the
  record, the index in memory maps the id to \<open>{title, folderPath, lastModified = now}\<close> with
  every other entry unchanged, the index file is written next, and \<open>saveComic\<close> returns
  true whether or not that second write succeeds: after a failed index write the index
  file still has its old content and the index in memory keeps the new entry.
\<close>

theorem saveComic_result:
  assumes paths: "storePaths st"
      and run: "saveComic now st d comic = (ok, st', d')"
  shows "(comicFilePath st (comicId comic) \<in> unwritable d \<longrightarrow> \<not> ok \<and> st' = st \<and> d' = d) \<and>
         (comicFilePath st (comicId comic) \<notin> unwritable d \<longrightarrow>
            ok \<and>
            jsonFiles d' (comicFilePath st (comicId comic)) = Some (ComicDoc comic) \<and>
            map_of (ix_comics (libraryIndex st')) (comicId comic) =
              Some \<lparr> ix_title = title comic, ix_folderPath = folderPath comic,
                     ix_lastModified = now \<rparr> \<and>
            (\<forall>k. k \<noteq> comicId comic \<longrightarrow>
               map_of (ix_comics (libraryIndex st')) k = map_of (ix_comics (libraryIndex st)) k) \<and>
            (indexFilePath st \<notin> unwritable d \<longrightarrow>
               jsonFiles d' (indexFilePath st) = Some (IndexDoc (libraryIndex st'))) \<and>
            (indexFilePath st \<in> unwritable d \<longrightarrow>
               jsonFiles d' (indexFilePath st) = jsonFiles d (indexFilePath st)))"
proof (cases "comicFilePath st (comicId comic) \<in> unwritable d")
  case True
  with run show ?thesis by (simp add: saveComic_file_fails)
next
  case w: False
  have ne: "indexFilePath st \<noteq> comicFilePath st (comicId comic)"
    using comic_path_not_index [OF paths] by metis
  show ?thesis
  proof (cases "indexFilePath st \<in> unwritable d")
    case True
    then show ?thesis using w ne run
      by (auto simp: saveComic_file_written writeFile_fail indexed_def AList.update_conv')
  next
    case False
    then show ?thesis using w ne run
      by (auto simp: saveComic_file_written writeFile_ok indexed_def AList.update_conv')
  qed
qed

theorem saveComic_result_witness:
  "storePaths exStorage \<and>
   comicFilePath exStorage (comicId exComicA) \<in> unwritable exDiskFull \<and>
   saveComic exNow exStorage exDiskFull exComicA = (False, exStorage, exDiskFull) \<and>
   comicFilePath exStorage (comicId exComicA) \<notin> unwritable exDisk \<and>
   indexFilePath exStorage \<notin> unwritable exDisk \<and>
   fst (saveComic exNow exStorage exDisk exComicA) \<and>
   jsonFiles (snd (snd (saveComic exNow exStorage exDisk exComicA)))
      (comicFilePath exStorage (comicId exComicA)) = Some (ComicDoc exComicA) \<and>
   jsonFiles (snd (snd (saveComic exNow exStorage exDisk exComicA))) (indexFilePath exStorage) =
      Some (IndexDoc (libraryIndex (fst (snd (saveComic exNow exStorage exDisk exComicA))))) \<and>
   comicFilePath exStorage (comicId exComicA) \<notin> unwritable exDiskIndexFails \<and>
   indexFilePath exStorage \<in> unwritable exDiskIndexFails \<and>
   fst (saveComic exNow exStorage exDiskIndexFails exComicA) \<and>
   jsonFiles (snd (snd (saveComic exNow exStorage exDiskIndexFails exComicA)))
      (indexFilePath exStorage) = jsonFiles exDiskIndexFails (indexFilePath exStorage)"
proof -
  have h1: "storePaths exStorage"
    by (simp add: storePaths_def exStorage_def)
  have h2: "comicFilePath exStorage (comicId exComicA) \<in> unwritable exDiskFull"
    by (simp add: exDiskFull_def)
  have h3: "comicFilePath exStorage (comicId exComicA) \<notin> unwritable exDisk"
    by (simp add: exDisk_def)
  have h4: "indexFilePath exStorage \<notin> unwritable exDisk"
    by (simp add: exDisk_def)
  have h5: "comicFilePath exStorage (comicId exComicA) \<notin> unwritable exDiskIndexFails"
    by (simp add: exDiskIndexFails_def comicFilePath_def exStorage_def)
  have h6: "indexFilePath exStorage \<in> unwritable exDiskIndexFails"
    by (simp add: exDiskIndexFails_def indexFilePath_def exStorage_def)
  note a = saveComic_result [where now = exNow and d = exDiskFull and comic = exComicA,
             OF h1 triple_collapse]
  note b = saveComic_result [where now = exNow and d = exDisk and comic = exComicA,
             OF h1 triple_collapse]
  note c = saveComic_result [where now = exNow and d = exDiskIndexFails and comic = exComicA,
             OF h1 triple_collapse]
  from a h2 have a': "saveComic exNow exStorage exDiskFull exComicA = (False, exStorage, exDiskFull)"
    by (metis prod.collapse)
  from a' b c h1 h2 h3 h4 h5 h6 show ?thesis by metis
qed

text \<open>
  The claim as stated fails where the index file cannot be written: the write of the index
  returns false, and \<open>saveComic\<close> returns true.
\<close>

theorem saveComic_index_write_failure_counterexample:
  "fst (write_file exDiskIndexFails (indexFilePath exStorage) (IndexDoc exIndex)) = False \<and>
   fst (saveComic exNow exStorage exDiskIndexFails exComicA) = True"
  by (simp add: write_file_def saveComic_def writeFile_def isElectron_def indexFilePath_def
      comicFilePath_def exStorage_def exDiskIndexFails_def exDisk_def exComicA_def)

text \<open>
  C9. \<open>deleteComic\<close> returns true; the index in memory loses the entry of the id and
  keeps every other entry; the index file is rewritten with that index (when the write
  succeeds); every per-id comic file, the one of the deleted id included, is on disk as
  before, so \<open>getComic\<close> still finds the record.
\<close>

theorem deleteComic_index_only:
  assumes paths: "storePaths st"
      and run: "deleteComic st d cid = (ok, st', d')"
  shows "ok \<and>
         ix_comics (libraryIndex st') = AList.delete cid (ix_comics (libraryIndex st)) \<and>
         map_of (ix_comics (libraryIndex st')) cid = None \<and>
         (\<forall>k. k \<noteq> cid \<longrightarrow>
            map_of (ix_comics (libraryIndex st')) k = map_of (ix_comics (libraryIndex st)) k) \<and>
         (indexFilePath st \<notin> unwritable d \<longrightarrow>
            jsonFiles d' (indexFilePath st') = Some (IndexDoc (libraryIndex st'))) \<and>
         (\<forall>k. jsonFiles d' (comicFilePath st' k) = jsonFiles d (comicFilePath st k)) \<and>
         getComic st' d' cid = getComic st d cid \<and>
         folders d' = folders d"
proof (cases "indexFilePath st \<in> unwritable d")
  case True
  then show ?thesis using run
    by (auto simp: deleteComic_def isElectron_def indexFilePath_def writeFile_fail
        AList.delete_conv comicFilePath_def getComic_def)
next
  case False
  then show ?thesis using paths run
    by (auto simp: deleteComic_def isElectron_def indexFilePath_def writeFile_ok storePaths_def
        AList.delete_conv comicFilePath_def getComic_def readFile_eq read_file_def)
qed

theorem deleteComic_index_only_witness:
  "storePaths exStorage \<and>
   indexFilePath exStorage \<notin> unwritable exDisk \<and>
   exIdA \<noteq> exIdB \<and>
   fst (deleteComic exStorage exDisk exIdB) \<and>
   map_of (ix_comics (libraryIndex (fst (snd (deleteComic exStorage exDisk exIdB))))) exIdB = None \<and>
   map_of (ix_comics (libraryIndex (fst (snd (deleteComic exStorage exDisk exIdB))))) exIdA =
     map_of (ix_comics (libraryIndex exStorage)) exIdA \<and>
   jsonFiles (snd (snd (deleteComic exStorage exDisk exIdB)))
     (indexFilePath (fst (snd (deleteComic exStorage exDisk exIdB)))) =
     Some (IndexDoc (libraryIndex (fst (snd (deleteComic exStorage exDisk exIdB))))) \<and>
   getComic (fst (snd (deleteComic exStorage exDisk exIdB)))
            (snd (snd (deleteComic exStorage exDisk exIdB))) exIdB = Some exComicB"
proof -
  have h1: "storePaths exStorage"
    by (simp add: storePaths_def exStorage_def)
  have h2: "indexFilePath exStorage \<notin> unwritable exDisk"
    by (simp add: exDisk_def)
  have h3: "exIdA \<noteq> exIdB"
    by (simp add: exIdA_def exIdB_def)
  have g: "getComic exStorage exDisk exIdB = Some exComicB"
    by (simp add: getComic_def readFile_eq read_file_def isElectron_def comicFilePath_def
        exStorage_def exDisk_def exIdB_def)
  note t = deleteComic_index_only [where d = exDisk and cid = exIdB, OF h1 triple_collapse]
  from t h1 h2 h3 g show ?thesis by metis
qed

subsection \<open>Paths\<close>

lemma dropWhile_all: "(\<And>x. x \<in> set xs \<Longrightarrow> P x) \<Longrightarrow> dropWhile P (xs @ ys) = dropWhile P ys"
  by (induction xs) auto

lemma rev_name_drop:
  assumes "plainName name"
  shows "dropWhile (\<lambda>c. c \<noteq> CHR ''/'') (dropWhile (\<lambda>c. c = CHR ''/'') (rev name @ ys)) =
         dropWhile (\<lambda>c. c \<noteq> CHR ''/'') ys"
proof -
  from assms have ne: "rev name \<noteq> []" and hd: "hd (rev name) \<noteq> CHR ''/''"
    and all: "\<And>x. x \<in> set (rev name) \<Longrightarrow> x \<noteq> CHR ''/''"
    by (auto simp: plainName_def hd_rev dest: last_in_set)
  from ne hd have "dropWhile (\<lambda>c. c = CHR ''/'') (rev name @ ys) = rev name @ ys"
    by (cases "rev name") auto
  moreover have "dropWhile (\<lambda>c. c \<noteq> CHR ''/'') (rev name @ ys) =
                 dropWhile (\<lambda>c. c \<noteq> CHR ''/'') ys"
    by (rule dropWhile_all) (rule all)
  ultimately show ?thesis by simp
qed

lemma dirname_join_sep:
  assumes "plainName name" "dp \<noteq> []" "last dp \<noteq> CHR ''/''"
  shows "path_dirname (path_join dp name) = dp"
proof -
  have p: "path_join dp name = dp @ CHR ''/'' # name" using assms by (simp add: path_join_def)
  have up: "dropWhile (\<lambda>c. c \<noteq> CHR ''/'')
              (dropWhile (\<lambda>c. c = CHR ''/'') (rev name @ CHR ''/'' # rev dp))
            = CHR ''/'' # rev dp"
    using rev_name_drop [OF assms(1), of "CHR ''/'' # rev dp"] by simp
  have "length dp = 1 \<Longrightarrow> hd dp \<noteq> CHR ''/''"
    using assms(2,3) by (cases dp) auto
  then show ?thesis using assms(2)
    by (auto simp: path_dirname_def p up Let_def)
qed

lemma basename_butlast:
  "last dp = CHR ''/'' \<Longrightarrow> dp \<noteq> [] \<Longrightarrow> path_basename (butlast dp) = path_basename dp"
  by (cases dp rule: rev_cases) (auto simp: path_basename_def)

lemma basename_dirname_join:
  assumes "plainName name" "dp \<noteq> []"
  shows "path_basename (path_dirname (path_join dp name)) = path_basename dp"
proof (cases "last dp = CHR ''/''")
  case False
  then show ?thesis using dirname_join_sep [OF assms(1,2)] by simp
next
  case True
  have p: "path_join dp name = dp @ name" using assms True by (simp add: path_join_def)
  have rd: "dropWhile (\<lambda>c. c \<noteq> CHR ''/'') (rev dp) = rev dp"
    using True assms(2) by (cases dp rule: rev_cases) auto
  have up: "dropWhile (\<lambda>c. c \<noteq> CHR ''/'')
              (dropWhile (\<lambda>c. c = CHR ''/'') (rev name @ rev dp))
            = rev dp"
    using rev_name_drop [OF assms(1), of "rev dp"] rd by simp
  have nm: "name \<noteq> []" using assms(1) by (simp add: plainName_def)
  have hdp: "hd (dp @ name) = hd dp" using assms(2) by simp
  have dn: "path_dirname (dp @ name) =
              (if length dp \<le> 1 then (if hd dp = CHR ''/'' then ''/'' else ''.'')
               else if hd dp = CHR ''/'' \<and> length dp - 1 = 1 then ''//''
               else take (length dp - 1) (dp @ name))"
    using assms(2) by (simp add: path_dirname_def up hdp Let_def)
  show ?thesis
  proof (cases "length dp \<le> 1")
    case L: True
    with assms(2) True have "dp = ''/''"
      by (cases dp) auto
    then show ?thesis unfolding p dn by (simp add: path_basename_def)
  next
    case L: False
    show ?thesis
    proof (cases "hd dp = CHR ''/'' \<and> length dp - 1 = 1")
      case T2: True
      then have "dp = ''//''" using True L
        by (cases dp; cases "tl dp") auto
      then show ?thesis unfolding p dn by (simp add: path_basename_def)
    next
      case F2: False
      have "path_dirname (dp @ name) = take (length dp - 1) (dp @ name)"
        using L F2 unfolding dn by auto
      also have "\<dots> = butlast dp" using assms(2) by (simp add: butlast_conv_take)
      finally show ?thesis using basename_butlast [OF True assms(2)] by (simp add: p)
    qed
  qed
qed


subsection \<open>The merge step\<close>

lemma exLib_scan: "sr_comics (read_directory ''/Lib'' (Some exLib)) = [exFolderA, exFolderB]"
  by code_simp

lemma convert_keeps:
  "getComic st d (cf_id cf) = Some m \<Longrightarrow> keepsEdits m (convertComicFolderToComic st d cf)"
  by (simp add: convertComicFolderToComic_def keepsEdits_def orElse_def split: option.split)

lemma convert_id: "comicId (convertComicFolderToComic st d cf) = cf_id cf"
  by (simp add: convertComicFolderToComic_def Let_def)

lemma keepsEdits_refl: "keepsEdits m m"
  by (simp add: keepsEdits_def split: option.split)

lemma getComic_file:
  "getComic st d cid = Some m \<longleftrightarrow> jsonFiles d (comicFilePath st cid) = Some (ComicDoc m)"
  by (auto simp: getComic_def readFile_eq read_file_def isElectron_def
      split: option.splits document.splits)

lemma saveComic_paths:
  "saveComic now st d c = (ok, st', d') \<Longrightarrow>
     comicsPath st' = comicsPath st \<and> dataPath st' = dataPath st"
  by (auto simp: saveComic_def isElectron_def Let_def split: prod.splits if_splits)

lemma saveComic_holds:
  assumes paths: "storePaths st"
      and run: "saveComic now st d c = (ok, st', d')"
      and c: "comicId c = cid \<longrightarrow> keepsEdits m c"
      and inv: "holdsEdits m (comicFilePath st cid) d"
  shows "holdsEdits m (comicFilePath st cid) d'"
proof (cases "comicFilePath st (comicId c) \<in> unwritable d")
  case True
  with run inv show ?thesis by (simp add: saveComic_file_fails)
next
  case False
  let ?d1 = "d\<lparr> jsonFiles := (jsonFiles d)(comicFilePath st (comicId c) \<mapsto> ComicDoc c) \<rparr>"
  from False run have d': "d' = snd (writeFile ?d1 (indexFilePath st)
                              (IndexDoc (libraryIndex (indexed st now c))))"
    by (auto simp: saveComic_file_written)
  have ne: "comicFilePath st cid \<noteq> indexFilePath st"
    by (rule comic_path_not_index [OF paths])
  have "jsonFiles d' (comicFilePath st cid) = jsonFiles ?d1 (comicFilePath st cid)"
    unfolding d' by (rule writeFile_other [OF surjective_pairing ne])
  moreover have "holdsEdits m (comicFilePath st cid) ?d1"
  proof (cases "comicId c = cid")
    case True
    with c show ?thesis by (auto simp: holdsEdits_def)
  next
    case False
    then have "comicFilePath st (comicId c) \<noteq> comicFilePath st cid"
      using comicFilePath_inj by blast
    with inv show ?thesis by (simp add: holdsEdits_def)
  qed
  ultimately show ?thesis by (simp add: holdsEdits_def)
qed

lemma storePaths_cong:
  "comicsPath st' = comicsPath st \<Longrightarrow> dataPath st' = dataPath st \<Longrightarrow>
     storePaths st' = storePaths st \<and> comicFilePath st' = comicFilePath st \<and>
     indexFilePath st' = indexFilePath st"
  by (auto simp: storePaths_def comicFilePath_def indexFilePath_def fun_eq_iff)

lemma saveEach_holds:
  assumes "storePaths st"
      and "saveEach now st d cs = (st', d')"
      and "\<forall>c \<in> set cs. comicId c = cid \<longrightarrow> keepsEdits m c"
      and "holdsEdits m (comicFilePath st cid) d"
  shows "holdsEdits m (comicFilePath st cid) d' \<and>
         comicsPath st' = comicsPath st \<and> dataPath st' = dataPath st"
  using assms
proof (induction cs arbitrary: st d)
  case Nil
  then show ?case by simp
next
  case (Cons c cs)
  obtain ok st1 d1 where s1: "saveComic now st d c = (ok, st1, d1)"
    by (metis prod_cases3)
  from Cons.prems(2) s1 have rest: "saveEach now st1 d1 cs = (st', d')" by simp
  from saveComic_paths [OF s1] have p1: "comicsPath st1 = comicsPath st" "dataPath st1 = dataPath st"
    by simp_all
  note eq = storePaths_cong [OF p1]
  have h1: "holdsEdits m (comicFilePath st cid) d1"
    using saveComic_holds [OF Cons.prems(1) s1 _ Cons.prems(4)] Cons.prems(3) by simp
  have "holdsEdits m (comicFilePath st1 cid) d' \<and>
         comicsPath st' = comicsPath st1 \<and> dataPath st' = dataPath st1"
    using Cons.IH [OF _ rest] Cons.prems(1,3) h1 eq by simp
  then show ?case using eq p1 by simp
qed

lemma saveComics_holds:
  assumes paths: "storePaths st"
      and run: "saveComics now st d cs = (ok, st', d')"
      and cs: "\<forall>c \<in> set cs. comicId c = cid \<longrightarrow> keepsEdits m c"
      and inv: "holdsEdits m (comicFilePath st cid) d"
  shows "holdsEdits m (comicFilePath st' cid) d'"
proof -
  obtain st1 d1 where e: "saveEach now st d cs = (st1, d1)" by (metis surj_pair)
  from saveEach_holds [OF paths e cs inv]
  have h: "holdsEdits m (comicFilePath st cid) d1"
    and p: "comicsPath st1 = comicsPath st" "dataPath st1 = dataPath st" by simp_all
  let ?st2 = "st1\<lparr> libraryIndex := (libraryIndex st1)\<lparr> totalComics := length cs, lastScan := now \<rparr> \<rparr>"
  from run e have st': "st' = ?st2"
    and d': "d' = snd (writeFile d1 (indexFilePath ?st2) (IndexDoc (libraryIndex ?st2)))"
    by (auto simp: saveComics_def isElectron_def Let_def split: prod.splits)
  have ip: "indexFilePath ?st2 = indexFilePath st" and cp: "comicFilePath st' cid = comicFilePath st cid"
    using p by (simp_all add: indexFilePath_def comicFilePath_def st')
  have ne: "comicFilePath st cid \<noteq> indexFilePath st"
    by (rule comic_path_not_index [OF paths])
  have "jsonFiles d' (comicFilePath st cid) = jsonFiles d1 (comicFilePath st cid)"
    unfolding d' ip by (rule writeFile_other [OF surjective_pairing ne])
  with h show ?thesis by (simp add: holdsEdits_def cp)
qed

text \<open>
  C1, amended. For every scanned folder whose id has a persisted record \<open>m\<close>, a refresh
  converts the scan result against the store as it was, and the merged record of the
  folder keeps the description and all genre tiers of \<open>m\<close>, keeps the title of \<open>m\<close> when
  that title is not empty, and keeps the author of \<open>m\<close> when that author is present and
  not empty. After the refresh has saved the merged records, the record persisted under
  the id still keeps these fields. (An empty persisted title or author counts as absent
  and is replaced by the default.)
\<close>

theorem refresh_keeps_edits:
  assumes paths: "storePaths st"
      and run: "handleRefresh now st d targetDirectory root = (converted, st', d')"
      and scanned: "comicFolder \<in> set (sr_comics (read_directory targetDirectory root))"
      and persisted: "getComic st d (cf_id comicFolder) = Some m"
  shows "converted = map (convertComicFolderToComic st d)
                       (sr_comics (read_directory targetDirectory root)) \<and>
         keepsEdits m (convertComicFolderToComic st d comicFolder) \<and>
         (\<exists>m'. getComic st' d' (cf_id comicFolder) = Some m' \<and> keepsEdits m m')"
proof -
  let ?cs = "map (convertComicFolderToComic st d) (sr_comics (read_directory targetDirectory root))"
  from run have conv: "converted = ?cs"
    by (auto simp: handleRefresh_def Let_def split: prod.splits)
  from run obtain ok where sv: "saveComics now st d ?cs = (ok, st', d')"
    by (auto simp: handleRefresh_def Let_def split: prod.splits)
  have all: "\<forall>c \<in> set ?cs. comicId c = cf_id comicFolder \<longrightarrow> keepsEdits m c"
  proof (intro ballI impI)
    fix c assume "c \<in> set ?cs" and idc: "comicId c = cf_id comicFolder"
    then obtain cf where c: "c = convertComicFolderToComic st d cf" by auto
    then have "cf_id cf = cf_id comicFolder"
      using idc by (simp add: convert_id)
    with persisted c show "keepsEdits m c" by (simp add: convert_keeps)
  qed
  have inv: "holdsEdits m (comicFilePath st (cf_id comicFolder)) d"
    using persisted by (auto simp: holdsEdits_def getComic_file keepsEdits_refl)
  from saveComics_holds [OF paths sv all inv]
  have "\<exists>m'. getComic st' d' (cf_id comicFolder) = Some m' \<and> keepsEdits m m'"
    by (simp add: holdsEdits_def getComic_file)
  with conv convert_keeps [OF persisted] show ?thesis by simp
qed

theorem refresh_keeps_edits_witness:
  "storePaths exStorage \<and>
   exFolderA \<in> set (sr_comics (read_directory ''/Lib'' (Some exLib))) \<and>
   getComic exStorage exDisk (cf_id exFolderA) = Some exComicA \<and>
   title exComicA \<noteq> [] \<and> author exComicA = Some ''X'' \<and>
   title (convertComicFolderToComic exStorage exDisk exFolderA) = title exComicA \<and>
   author (convertComicFolderToComic exStorage exDisk exFolderA) = Some ''X'' \<and>
   description (convertComicFolderToComic exStorage exDisk exFolderA) = description exComicA \<and>
   comicGenres (convertComicFolderToComic exStorage exDisk exFolderA) = comicGenres exComicA \<and>
   (\<exists>m'. getComic (fst (snd (handleRefresh exNow exStorage exDisk ''/Lib'' (Some exLib))))
               (snd (snd (handleRefresh exNow exStorage exDisk ''/Lib'' (Some exLib))))
               (cf_id exFolderA) = Some m' \<and>
         author m' = Some ''X'' \<and> comicGenres m' = comicGenres exComicA)"
proof -
  have h1: "storePaths exStorage"
    by (simp add: storePaths_def exStorage_def)
  have h2: "exFolderA \<in> set (sr_comics (read_directory ''/Lib'' (Some exLib)))"
    by (simp add: exLib_scan)
  have h3: "getComic exStorage exDisk (cf_id exFolderA) = Some exComicA"
    by (simp add: getComic_def readFile_eq read_file_def isElectron_def comicFilePath_def
        exStorage_def exDisk_def exFolderA_def)
  have h4: "title exComicA \<noteq> []" and h5: "author exComicA = Some ''X''"
    by (simp_all add: exComicA_def)
  note t = refresh_keeps_edits [where now = exNow, OF h1 triple_collapse h2 h3]
  from t have k: "keepsEdits exComicA (convertComicFolderToComic exStorage exDisk exFolderA)"
    by (rule conjunct1 [OF conjunct2])
  from t obtain m' where
    g: "getComic (fst (snd (handleRefresh exNow exStorage exDisk ''/Lib'' (Some exLib))))
               (snd (snd (handleRefresh exNow exStorage exDisk ''/Lib'' (Some exLib))))
               (cf_id exFolderA) = Some m'" and k': "keepsEdits exComicA m'"
    by (elim conjE exE)
  from k h4 h5 have a:
    "title (convertComicFolderToComic exStorage exDisk exFolderA) = title exComicA \<and>
     author (convertComicFolderToComic exStorage exDisk exFolderA) = Some ''X'' \<and>
     description (convertComicFolderToComic exStorage exDisk exFolderA) = description exComicA \<and>
     comicGenres (convertComicFolderToComic exStorage exDisk exFolderA) = comicGenres exComicA"
    by (simp add: keepsEdits_def)
  from k' h5 have b: "author m' = Some ''X'' \<and> comicGenres m' = comicGenres exComicA"
    by (simp add: keepsEdits_def)
  from g b have c: "\<exists>m'. getComic (fst (snd (handleRefresh exNow exStorage exDisk ''/Lib'' (Some exLib))))
               (snd (snd (handleRefresh exNow exStorage exDisk ''/Lib'' (Some exLib))))
               (cf_id exFolderA) = Some m' \<and>
         author m' = Some ''X'' \<and> comicGenres m' = comicGenres exComicA"
    by (intro exI [of _ m']) simp
  from h1 h2 h3 h4 h5 a c show ?thesis by (intro conjI) simp_all
qed

text \<open>
  The claim as stated fails for a persisted record whose author is the empty string: the
  merged record does not keep that author, it carries the default.
\<close>

theorem refresh_resets_empty_author_counterexample:
  "getComic exStorage exDisk (cf_id exFolderB) = Some exComicB \<and>
   author exComicB = Some [] \<and>
   author (convertComicFolderToComic exStorage exDisk exFolderB) \<noteq> author exComicB"
  by (simp add: getComic_def readFile_eq read_file_def isElectron_def comicFilePath_def
      exStorage_def exDisk_def exFolderB_def exComicB_def convertComicFolderToComic_def orElse_def)


lemma merged_author_default:
  assumes fresh: "getComic st d (cf_id comicFolder) = None"
      and leaf: "comicFolder =
                   makeComicFolder directoryPath (path_join dirPath name) name depth mtime imageFiles"
      and name: "plainName name" and parent: "dirPath \<noteq> []"
  shows "author (convertComicFolderToComic st d comicFolder) = Some ''Unknown'' \<and>
         cf_author comicFolder = Some (path_basename dirPath)"
  using assms
  by (simp add: convertComicFolderToComic_def orElse_def makeComicFolder_def basename_dirname_join)

lemma exFolderB_made:
  "exFolderB = makeComicFolder ''/Lib'' (path_join ''/Lib'' ''AuthorB'') ''AuthorB'' 0 4
                 [''B.JPG'', ''a.jpg'']"
  by code_simp

text \<open>
  C2. On the example of the specification the code departs from the claim. The scan of
  \<^verbatim>\<open>/Lib\<close> emits the record of the image folder \<^verbatim>\<open>/Lib/AuthorB\<close> with the scan-derived
  author \<^verbatim>\<open>Lib\<close>, the name of the parent directory; no record is persisted for its id; and
  the merged record has the author \<^verbatim>\<open>Unknown\<close>: the merge reads the persisted author or
  falls back to a fixed text, and never reads the author of the scan record.
\<close>

theorem merged_author_ignores_scan_author:
  "exFolderB \<in> set (sr_comics (read_directory ''/Lib'' (Some exLib))) \<and>
   getComic exStorage exDiskFresh (cf_id exFolderB) = None \<and>
   cf_author exFolderB = Some (path_basename ''/Lib'') \<and>
   cf_author exFolderB = Some ''Lib'' \<and>
   author (convertComicFolderToComic exStorage exDiskFresh exFolderB) = Some ''Unknown''"
proof -
  have h0: "exFolderB \<in> set (sr_comics (read_directory ''/Lib'' (Some exLib)))"
    by (simp add: exLib_scan)
  have h1: "getComic exStorage exDiskFresh (cf_id exFolderB) = None"
    by (simp add: getComic_def readFile_eq read_file_def isElectron_def exDiskFresh_def)
  have h3: "plainName ''AuthorB''"
    by (simp add: plainName_def)
  have h4: "''/Lib'' \<noteq> []"
    by simp
  have h5: "cf_author exFolderB = Some ''Lib''"
    by (simp add: exFolderB_def)
  from merged_author_default [OF h1 exFolderB_made h3 h4] h0 h1 h5 show ?thesis
    by (intro conjI) simp_all
qed

subsection \<open>Usage-checked tag deletion\<close>

lemma dedupBy_filter_key:
  "dedupBy key (filter (\<lambda>y. key y \<noteq> k) xs) = filter (\<lambda>y. key y \<noteq> k) (dedupBy key xs)"
proof (induction key xs rule: dedupBy.induct)
  case (1 key)
  then show ?case by simp
next
  case (2 key x xs)
  show ?case
  proof (cases "key x = k")
    case True
    then show ?thesis using 2 by simp
  next
    case False
    have "filter (\<lambda>y. key y \<noteq> key x) (filter (\<lambda>y. key y \<noteq> k) xs) =
          filter (\<lambda>y. key y \<noteq> k) (filter (\<lambda>y. key y \<noteq> key x) xs)"
      by (simp add: conj_commute)
    then show ?thesis using False 2 by simp
  qed
qed

lemma collectAffected_spec:
  "collectAffected v acc cs =
     acc @ map (\<lambda>c. (uniqueKey c, toAffected c))
             (dedupBy uniqueKey (filter (\<lambda>c. hasGenre c v \<and> uniqueKey c \<notin> fst ` set acc) cs))"
proof (induction cs arbitrary: acc)
  case Nil
  then show ?case by simp
next
  case (Cons c cs)
  show ?case
  proof (cases "hasGenre c v \<and> uniqueKey c \<notin> fst ` set acc")
    case True
    have "filter (\<lambda>x. hasGenre x v \<and> uniqueKey x \<notin> fst ` set (acc @ [(uniqueKey c, toAffected c)])) cs
        = filter (\<lambda>y. uniqueKey y \<noteq> uniqueKey c) (filter (\<lambda>x. hasGenre x v \<and> uniqueKey x \<notin> fst ` set acc) cs)"
      by (auto intro: filter_cong)
    then show ?thesis using True Cons.IH [of "acc @ [(uniqueKey c, toAffected c)]"]
      by (simp add: toAffected_def)
  next
    case False
    then show ?thesis using Cons.IH [of acc] by auto
  qed
qed

lemma affected_spec:
  "map snd (collectAffected v [] cs) = map toAffected (dedupBy uniqueKey (filter (\<lambda>c. hasGenre c v) cs))"
  by (simp add: collectAffected_spec comp_def)

lemma set_dedupBy: "set (dedupBy key xs) \<subseteq> set xs"
  by (induction key xs rule: dedupBy.induct) auto

lemma keys_dedupBy: "key ` set (dedupBy key xs) = key ` set xs"
proof (induction key xs rule: dedupBy.induct)
  case (1 key)
  then show ?case by simp
next
  case (2 key x xs)
  then show ?case by auto
qed

lemma distinct_dedupBy: "distinct (map key (dedupBy key xs))"
proof (induction key xs rule: dedupBy.induct)
  case (1 key)
  then show ?case by simp
next
  case (2 key x xs)
  have "key x \<notin> key ` set (dedupBy key (filter (\<lambda>y. key y \<noteq> key x) xs))"
    unfolding keys_dedupBy by auto
  with 2 show ?case by simp
qed

lemma dedupBy_Nil: "dedupBy key xs = [] \<longleftrightarrow> xs = []"
  by (cases xs) auto

lemma dedupBy_cong:
  "(\<And>x. x \<in> set xs \<Longrightarrow> f x = g x) \<Longrightarrow> dedupBy f xs = dedupBy g xs"
proof (induction f xs rule: dedupBy.induct)
  case (1 key)
  then show ?case by simp
next
  case (2 key x xs)
  have "filter (\<lambda>y. key y \<noteq> key x) xs = filter (\<lambda>y. g y \<noteq> g x) xs"
    using 2(2) by (auto intro: filter_cong)
  moreover have "dedupBy key (filter (\<lambda>y. key y \<noteq> key x) xs) = dedupBy g (filter (\<lambda>y. key y \<noteq> key x) xs)"
    using 2 by auto
  ultimately show ?case by simp
qed

lemma removeAt_take_drop: "removeAt i xs = take i xs @ drop (Suc i) xs"
proof -
  have "\<And>n. map snd (filter (\<lambda>p. fst p \<noteq> n + i) (enumerate n xs)) = take i xs @ drop (Suc i) xs"
  proof (induction xs arbitrary: i)
    case Nil
    then show ?case by simp
  next
    case (Cons x xs)
    show ?case
    proof (cases i)
      case 0
      have "\<And>m. m > n \<Longrightarrow> filter (\<lambda>p. fst p \<noteq> n) (enumerate m xs) = enumerate m xs"
        by (auto simp: filter_id_conv in_set_enumerate_eq)
      then show ?thesis using 0 by (simp add: map_snd_enumerate)
    next
      case (Suc j)
      then show ?thesis using Cons.IH [of "Suc n" j] by simp
    qed
  qed
  from this [of 0] show ?thesis by (simp add: removeAt_def)
qed

lemma taggedWith_Nil: "taggedWith v cs = [] \<longleftrightarrow> (\<forall>c \<in> set cs. \<not> hasGenre c v)"
  by (simp add: taggedWith_def filter_empty_conv)

lemma setGenres_result:
  "setGenres st d g = (st', d') \<Longrightarrow>
     data_genres st' = g \<and> libraryIndex st' = libraryIndex st \<and>
     (genresFilePath st \<notin> unwritable d \<longrightarrow> jsonFiles d' (genresFilePath st) = Some (GenresDoc g))"
  by (auto simp: setGenres_def isElectron_def Let_def genresFilePath_def writeFile_def write_file_def
      split: prod.splits if_splits)

lemma exLibrary: "getLibrary exStorage exDisk = [exComicA, exComicB]"
  by (simp add: getLibrary_def getAllComics_def List.map_filter_def getComic_def readFile_eq
      read_file_def isElectron_def comicFilePath_def exStorage_def exIndex_def exDisk_def)

lemma exLibraryNoPaths: "getLibrary exStorageNoPaths exDiskNoPaths = [exComicC, exComicD]"
  by (simp add: getLibrary_def getAllComics_def List.map_filter_def getComic_def readFile_eq
      read_file_def isElectron_def comicFilePath_def exStorage_def exStorageNoPaths_def exDiskNoPaths_def)

text \<open>
  C5, amended. Deleting a tag computes the affected comics: the comics of the library that
  carry the value in one of their genre tiers, de-duplicated by the key
  \<^verbatim>\<open>folderPath || title\<close>, first occurrence kept; when no comic of the library has an empty
  folder path this is de-duplication by folder path. If a comic carries the value, neither
  the catalog of the manager nor the store nor the disk changes, and the deletion is left
  pending with the alert shown. If no comic carries it, the affected list is empty, the
  entry at the given index leaves its category at once (the other categories are
  unchanged), and the new catalog is stored and written to the genres file.
\<close>

theorem checkGenreUsage_safe:
  assumes run: "checkGenreUsage gm st d category index v = (gm', st', d')"
  shows "gm_affectedComics gm' =
           map toAffected (dedupBy uniqueKey (taggedWith v (getLibrary st d))) \<and>
         ((\<forall>c \<in> set (getLibrary st d). folderPath c \<noteq> []) \<longrightarrow>
            gm_affectedComics gm' =
              map toAffected (dedupBy folderPath (taggedWith v (getLibrary st d)))) \<and>
         ((\<exists>c \<in> set (getLibrary st d). hasGenre c v) \<longrightarrow>
            gm_affectedComics gm' \<noteq> [] \<and> gm_genres gm' = gm_genres gm \<and> st' = st \<and> d' = d \<and>
            gm_showDeleteAlert gm' \<and>
            gm_genreToDelete gm' =
              Some \<lparr> gs_category = category, gs_index = index, gs_value = v \<rparr>) \<and>
         ((\<forall>c \<in> set (getLibrary st d). \<not> hasGenre c v) \<longrightarrow>
            gm_affectedComics gm' = [] \<and>
            gm_genres gm' =
              catalogSet (gm_genres gm) category
                (take index (catalogGet (gm_genres gm) category) @
                 drop (Suc index) (catalogGet (gm_genres gm) category)) \<and>
            data_genres st' = gm_genres gm' \<and>
            (genresFilePath st \<notin> unwritable d \<longrightarrow>
               jsonFiles d' (genresFilePath st) = Some (GenresDoc (gm_genres gm'))))"
proof -
  let ?lib = "getLibrary st d"
  let ?aff = "map toAffected (dedupBy uniqueKey (taggedWith v ?lib))"
  have aff: "map snd (collectAffected v [] ?lib) = ?aff"
    by (simp add: affected_spec taggedWith_def)
  have empty: "?aff = [] \<longleftrightarrow> (\<forall>c \<in> set ?lib. \<not> hasGenre c v)"
    by (simp add: dedupBy_Nil taggedWith_Nil)
  have byPath: "(\<forall>c \<in> set ?lib. folderPath c \<noteq> []) \<Longrightarrow>
          dedupBy uniqueKey (taggedWith v ?lib) = dedupBy folderPath (taggedWith v ?lib)"
    by (rule dedupBy_cong) (simp add: uniqueKey_def taggedWith_def)
  show ?thesis
  proof (cases "\<forall>c \<in> set ?lib. \<not> hasGenre c v")
    case True
    with empty have e: "map snd (collectAffected v [] ?lib) = []" using aff by simp
    obtain st1 d1 where sg: "setGenres st d (catalogSet (gm_genres gm) category
                (removeAt index (catalogGet (gm_genres gm) category))) = (st1, d1)"
      by (metis surj_pair)
    from run e sg have r: "gm' = gm\<lparr> gm_affectedComics := [],
              gm_genres := catalogSet (gm_genres gm) category
                (removeAt index (catalogGet (gm_genres gm) category)),
              gm_selectedGenre := None \<rparr>" "st' = st1" "d' = d1"
      by (auto simp: checkGenreUsage_def saveGenres_def Let_def split: prod.splits)
    from setGenres_result [OF sg] r True empty byPath show ?thesis
      by (auto simp: removeAt_take_drop)
  next
    case False
    with empty have ne: "map snd (collectAffected v [] ?lib) \<noteq> []" using aff by simp
    then have len: "length (map snd (collectAffected v [] ?lib)) \<noteq> 0" by simp
    from run len have r: "gm' = gm\<lparr> gm_affectedComics := map snd (collectAffected v [] ?lib),
              gm_genreToDelete := Some \<lparr> gs_category = category, gs_index = index, gs_value = v \<rparr>,
              gm_showDeleteAlert := True \<rparr>" "st' = st" "d' = d"
      by (auto simp: checkGenreUsage_def Let_def simp del: length_map split: prod.splits)
    from r False aff ne byPath show ?thesis by auto
  qed
qed

theorem checkGenreUsage_safe_witness:
  "getLibrary exStorage exDisk = [exComicA, exComicB] \<and>
   hasGenre exComicA exTagBrave \<and>
   folderPath exComicA \<noteq> [] \<and> folderPath exComicB \<noteq> [] \<and>
   gm_affectedComics (fst (checkGenreUsage exManager exStorage exDisk Personality 0 exTagBrave)) =
     map toAffected (dedupBy folderPath (taggedWith exTagBrave (getLibrary exStorage exDisk))) \<and>
   gm_affectedComics (fst (checkGenreUsage exManager exStorage exDisk Personality 0 exTagBrave)) \<noteq> [] \<and>
   gm_genres (fst (checkGenreUsage exManager exStorage exDisk Personality 0 exTagBrave)) =
     gm_genres exManager \<and>
   fst (snd (checkGenreUsage exManager exStorage exDisk Personality 0 exTagBrave)) = exStorage \<and>
   snd (snd (checkGenreUsage exManager exStorage exDisk Personality 0 exTagBrave)) = exDisk \<and>
   \<not> hasGenre exComicA exTagShy \<and> \<not> hasGenre exComicB exTagShy \<and>
   genresFilePath exStorage \<notin> unwritable exDisk \<and>
   gm_affectedComics (fst (checkGenreUsage exManager exStorage exDisk Personality 1 exTagShy)) = [] \<and>
   personality (gm_genres (fst (checkGenreUsage exManager exStorage exDisk Personality 1 exTagShy))) =
     [exTagBrave] \<and>
   jsonFiles (snd (snd (checkGenreUsage exManager exStorage exDisk Personality 1 exTagShy)))
     (genresFilePath exStorage) =
     Some (GenresDoc (gm_genres (fst (checkGenreUsage exManager exStorage exDisk Personality 1 exTagShy))))"
proof -
  have g1: "hasGenre exComicA exTagBrave"
    by (simp add: hasGenre_def exComicA_def exTagBrave_def)
  have g2: "folderPath exComicA \<noteq> []" and g3: "folderPath exComicB \<noteq> []"
    by (simp_all add: exComicA_def exComicB_def)
  have g4: "\<not> hasGenre exComicA exTagShy" and g5: "\<not> hasGenre exComicB exTagShy"
    by (simp_all add: hasGenre_def exComicA_def exComicB_def exTagShy_def)
  have h1: "\<exists>c \<in> set (getLibrary exStorage exDisk). hasGenre c exTagBrave"
    using g1 by (simp add: exLibrary)
  have h2: "\<forall>c \<in> set (getLibrary exStorage exDisk). folderPath c \<noteq> []"
    using g2 g3 by (simp add: exLibrary)
  have h3: "\<forall>c \<in> set (getLibrary exStorage exDisk). \<not> hasGenre c exTagShy"
    using g4 g5 by (simp add: exLibrary)
  have h4: "genresFilePath exStorage \<notin> unwritable exDisk"
    by (simp add: exDisk_def)
  note a = checkGenreUsage_safe [where gm = exManager and st = exStorage and d = exDisk and
      category = Personality and index = 0 and v = exTagBrave, OF triple_collapse]
  note b = checkGenreUsage_safe [where gm = exManager and st = exStorage and d = exDisk and
      category = Personality and index = 1 and v = exTagShy, OF triple_collapse]
  note a1 = a [THEN conjunct2, THEN conjunct1, THEN mp, OF h2]
  note a2 = a [THEN conjunct2, THEN conjunct2, THEN conjunct1, THEN mp, OF h1]
  note b1 = b [THEN conjunct2, THEN conjunct2, THEN conjunct2, THEN mp, OF h3]
  note b2 = b1 [THEN conjunct2, THEN conjunct2, THEN conjunct2, THEN mp, OF h4]
  from b1 have b3: "personality (gm_genres (fst (checkGenreUsage exManager exStorage exDisk Personality 1 exTagShy))) =
     [exTagBrave]"
    by (simp add: exManager_def exTagBrave_def)
  show ?thesis
    apply (intro conjI)
    apply (rule exLibrary)
    apply (rule g1)
    apply (rule g2)
    apply (rule g3)
    apply (rule a1)
    apply (rule a2 [THEN conjunct1])
    apply (rule a2 [THEN conjunct2, THEN conjunct1])
    apply (rule a2 [THEN conjunct2, THEN conjunct2, THEN conjunct1])
    apply (rule a2 [THEN conjunct2, THEN conjunct2, THEN conjunct2, THEN conjunct1])
    apply (rule g4)
    apply (rule g5)
    apply (rule h4)
    apply (rule b1 [THEN conjunct1])
    apply (rule b3)
    apply (rule b2)
    done
qed


text \<open>
  The claim as stated fails on a library whose comics have an empty folder path: two
  tagged comics with the same (empty) folder path and different titles are both listed.
\<close>

theorem affected_not_by_folder_path_counterexample:
  "map ac_folderPath (gm_affectedComics
       (fst (checkGenreUsage exManager exStorageNoPaths exDiskNoPaths Personality 0 ''brave''))) =
     [[], []] \<and>
   map ac_title (gm_affectedComics
       (fst (checkGenreUsage exManager exStorageNoPaths exDiskNoPaths Personality 0 ''brave''))) =
     [''C'', ''D'']"
  by (simp add: checkGenreUsage_def exLibraryNoPaths Let_def hasGenre_def uniqueKey_def
      exComicC_def exComicD_def exComicA_def)

subsection \<open>Folder renaming\<close>

lemma rename_folder_refused:
  "\<not> existsSync d oldPath \<or> existsSync d newPath \<Longrightarrow> rename_folder d oldPath newPath = (False, d)"
  by (auto simp: rename_folder_def)

lemma ex_sanitize:
  "sanitizeTitle exOldTitle = ''AuthorB''" "sanitizeTitle exNewTitle = ''Taken''"
  "sanitizeTitle exSameTitle = ''AuthorB''"
  by (simp_all add: exOldTitle_def exNewTitle_def exSameTitle_def) code_simp+

text \<open>
  C6, amended. For every rename request whose sanitised old and new titles differ: if the
  old folder path does not exist, or the computed sibling path already exists, the
  operation returns failure and changes nothing, neither on disk (folders and files) nor
  in the store. A request whose sanitised titles are equal is a no-op: it returns the old
  path and changes nothing, without testing the disk.
\<close>

theorem renameComicFolder_safe:
  assumes run: "renameComicFolder st d oldTitle newTitle oldPath = (res, st', d')"
  shows "(sanitizeTitle oldTitle = sanitizeTitle newTitle \<longrightarrow>
            res = Some oldPath \<and> st' = st \<and> d' = d) \<and>
         (sanitizeTitle oldTitle \<noteq> sanitizeTitle newTitle \<and>
          (\<not> existsSync d oldPath \<or>
           existsSync d (beforeLastSlash oldPath @ ''/'' @ sanitizeTitle newTitle)) \<longrightarrow>
            res = None \<and> st' = st \<and> d' = d)"
  using run
  by (auto simp: renameComicFolder_def isElectron_def Let_def rename_folder_refused
      split: prod.splits if_splits)

theorem renameComicFolder_safe_witness:
  "sanitizeTitle exOldTitle = sanitizeTitle exSameTitle \<and>
   renameComicFolder exStorage exDisk exOldTitle exSameTitle exOldPath =
     (Some exOldPath, exStorage, exDisk) \<and>
   sanitizeTitle exOldTitle \<noteq> sanitizeTitle exNewTitle \<and>
   existsSync exDisk (beforeLastSlash exOldPath @ ''/'' @ sanitizeTitle exNewTitle) \<and>
   renameComicFolder exStorage exDisk exOldTitle exNewTitle exOldPath = (None, exStorage, exDisk) \<and>
   \<not> existsSync exDisk exGonePath \<and>
   renameComicFolder exStorage exDisk exOldTitle exNewTitle exGonePath = (None, exStorage, exDisk)"
proof -
  have h1: "sanitizeTitle exOldTitle = sanitizeTitle exSameTitle"
    by (simp add: ex_sanitize)
  have h2: "sanitizeTitle exOldTitle \<noteq> sanitizeTitle exNewTitle"
    by (simp add: ex_sanitize)
  have h3: "existsSync exDisk (beforeLastSlash exOldPath @ ''/'' @ sanitizeTitle exNewTitle)"
    by (simp add: ex_sanitize existsSync_def exDisk_def beforeLastSlash_def exOldPath_def)
  have h4: "\<not> existsSync exDisk exGonePath"
    by (simp add: existsSync_def exDisk_def exGonePath_def)
  note a = renameComicFolder_safe [where st = exStorage and d = exDisk and oldTitle = exOldTitle
      and newTitle = exSameTitle and oldPath = exOldPath, OF triple_collapse,
      THEN conjunct1, THEN mp, OF h1]
  note b = renameComicFolder_safe [where st = exStorage and d = exDisk and oldTitle = exOldTitle
      and newTitle = exNewTitle and oldPath = exOldPath, OF triple_collapse,
      THEN conjunct2, THEN mp, OF conjI [OF h2 disjI2 [OF h3]]]
  note c = renameComicFolder_safe [where st = exStorage and d = exDisk and oldTitle = exOldTitle
      and newTitle = exNewTitle and oldPath = exGonePath, OF triple_collapse,
      THEN conjunct2, THEN mp, OF conjI [OF h2 disjI1 [OF h4]]]
  have a': "renameComicFolder exStorage exDisk exOldTitle exSameTitle exOldPath =
     (Some exOldPath, exStorage, exDisk)"
    using a by (metis prod.collapse)
  have b': "renameComicFolder exStorage exDisk exOldTitle exNewTitle exOldPath = (None, exStorage, exDisk)"
    using b by (metis prod.collapse)
  have c': "renameComicFolder exStorage exDisk exOldTitle exNewTitle exGonePath = (None, exStorage, exDisk)"
    using c by (metis prod.collapse)
  show ?thesis
    apply (intro conjI)
    apply (rule h1)
    apply (rule a')
    apply (rule h2)
    apply (rule h3)
    apply (rule b')
    apply (rule h4)
    apply (rule c')
    done
qed

text \<open>
  The claim as stated fails where the sanitised titles are equal: the old folder does not
  exist, and the operation returns the old path, not failure.
\<close>

theorem rename_missing_folder_counterexample:
  "\<not> existsSync exDisk ''/Lib/Gone'' \<and>
   fst (renameComicFolder exStorage exDisk ''Gone'' ''Gone'' ''/Lib/Gone'') = Some ''/Lib/Gone''"
  by (simp add: existsSync_def exDisk_def renameComicFolder_def isElectron_def)

subsection \<open>The scanner\<close>

lemma path_join_prefix: "path_join dir name = joinPrefix dir @ name"
  by (simp add: path_join_def joinPrefix_def)

lemma joinPrefix_join:
  "plainName name \<Longrightarrow> joinPrefix (path_join dir name) = path_join dir name @ ''/''"
  by (auto simp: path_join_def joinPrefix_def plainName_def dest: last_in_set)

lemma belowEntry_self: "belowEntry dir name (path_join dir name)"
  by (simp add: belowEntry_def)

lemma belowEntry_deeper:
  assumes "plainName name" "belowEntry (path_join dir name) n p"
  shows "belowEntry dir name p \<and> p \<noteq> path_join dir name"
proof -
  from assms(2) obtain rest where
    p: "p = path_join (path_join dir name) n @ rest" by (auto simp: belowEntry_def)
  have "p = path_join dir name @ (''/'' @ n @ rest)"
    unfolding p path_join_prefix [of "path_join dir name"] joinPrefix_join [OF assms(1)]
    by (simp add: path_join_prefix)
  then show ?thesis by (auto simp: belowEntry_def)
qed

lemma belowEntry_separate:
  assumes "plainName n" "plainName n'" "belowEntry dir n p" "p = path_join dir n'"
  shows "n = n'"
proof -
  from assms(3) obtain rest where
    p: "p = path_join dir n @ rest" and r: "rest = [] \<or> hd rest = CHR ''/''"
    by (auto simp: belowEntry_def)
  from p assms(4) have e: "n @ rest = n'" by (simp add: path_join_prefix)
  show ?thesis
  proof (cases "rest = []")
    case True
    with e show ?thesis by simp
  next
    case False
    with r have "CHR ''/'' \<in> set rest" by (cases rest) auto
    with e have "CHR ''/'' \<in> set n'" by auto
    with assms(2) show ?thesis by (simp add: plainName_def)
  qed
qed

lemma makeComicFolder_path [simp]:
  "cf_folderPath (makeComicFolder root fullPath name depth mtime imgs) = fullPath"
  by (simp add: makeComicFolder_def)

lemma scan_below:
  "(wellFormed node \<longrightarrow>
      (\<forall>r \<in> set (scanForComics root dp node depth).
         \<exists>n. plainName n \<and> belowEntry dp n (cf_folderPath r)))"
  "(wellFormedEntries es \<longrightarrow>
      (\<forall>r \<in> set (scanEntries root dp es depth).
         \<exists>n \<in> fst ` set es. plainName n \<and> belowEntry dp n (cf_folderPath r)))"
proof (induction root dp node depth and root dp es depth rule: scanForComics_scanEntries.induct)
  case (1 directoryPath dirPath mtime files depth)
  then show ?case by auto
next
  case (6 directoryPath dirPath name mtime dirContents rest depth)
  show ?case
  proof (intro impI ballI)
    fix r
    assume wf: "wellFormedEntries ((name, DirNode mtime dirContents) # rest)"
      and r: "r \<in> set (scanEntries directoryPath dirPath ((name, DirNode mtime dirContents) # rest) depth)"
    from wf have pn: "plainName name" and wfc: "wellFormed (DirNode mtime dirContents)"
      and wfr: "wellFormedEntries rest" by simp_all
    let ?full = "path_join dirPath name"
    from r consider
        (leaf) "visibleName name" "0 < length (imageFilesOf dirContents)"
               "r = makeComicFolder directoryPath ?full name depth mtime (imageFilesOf dirContents)"
      | (deep) "visibleName name" "\<not> 0 < length (imageFilesOf dirContents)"
               "r \<in> set (scanForComics directoryPath ?full (DirNode mtime dirContents) (depth + 1))"
      | (rest) "r \<in> set (scanEntries directoryPath dirPath rest depth)"
      by (auto simp: Let_def split: if_splits)
    then show "\<exists>n \<in> fst ` set ((name, DirNode mtime dirContents) # rest).
                 plainName n \<and> belowEntry dirPath n (cf_folderPath r)"
    proof cases
      case leaf
      then show ?thesis using pn by (auto simp: belowEntry_self)
    next
      case deep
      with 6(1) [OF deep(1) refl refl] wfc obtain n where
        "plainName n" "belowEntry ?full n (cf_folderPath r)" by auto
      with belowEntry_deeper [OF pn] have "belowEntry dirPath name (cf_folderPath r)" by blast
      then show ?thesis using pn by auto
    next
      case rest
      with 6(2) wfr show ?thesis by auto
    qed
  qed
qed auto

lemma scanEntries_append:
  "scanEntries root dp (xs @ ys) depth = scanEntries root dp xs depth @ scanEntries root dp ys depth"
proof (induction xs)
  case Nil
  then show ?case by simp
next
  case (Cons e xs)
  obtain name node where e: "e = (name, node)" by (cases e)
  show ?case using Cons by (cases node) (simp_all add: e)
qed

lemma wellFormedEntries_append:
  "wellFormedEntries (xs @ ys) \<longleftrightarrow> wellFormedEntries xs \<and> wellFormedEntries ys"
  by (induction xs) auto

lemma wellFormedEntries_plain:
  "wellFormedEntries es \<Longrightarrow> (n, node) \<in> set es \<Longrightarrow> plainName n \<and> wellFormed node"
  by (induction es) auto

lemma takeWhile_name:
  "CHR ''/'' \<notin> set n \<Longrightarrow> rest = [] \<or> hd rest = CHR ''/'' \<Longrightarrow>
     takeWhile (\<lambda>c. c \<noteq> CHR ''/'') (n @ rest) = n"
  by (induction n) (auto simp: takeWhile_eq_Nil_iff)

lemma sort_Nil_iff: "sort xs = [] \<longleftrightarrow> xs = []"
  by (metis length_0_conv length_sort)

lemma belowEntry_unique:
  assumes "plainName n" "plainName n'" "belowEntry dir n p" "belowEntry dir n' p"
  shows "n = n'"
proof -
  from assms(3) obtain rest where
    p: "p = path_join dir n @ rest" and r: "rest = [] \<or> hd rest = CHR ''/''"
    by (auto simp: belowEntry_def)
  from assms(4) obtain rest' where
    p': "p = path_join dir n' @ rest'" and r': "rest' = [] \<or> hd rest' = CHR ''/''"
    by (auto simp: belowEntry_def)
  from p p' have e: "n @ rest = n' @ rest'" by (simp add: path_join_prefix)
  have a: "takeWhile (\<lambda>c. c \<noteq> CHR ''/'') (n @ rest) = n"
    using assms(1) r by (simp add: plainName_def takeWhile_name)
  have b: "takeWhile (\<lambda>c. c \<noteq> CHR ''/'') (n' @ rest') = n'"
    using assms(2) r' by (simp add: plainName_def takeWhile_name)
  from a b e show ?thesis by simp
qed

lemma other_entries_miss:
  assumes wf: "wellFormedEntries es" and pn: "plainName name"
      and below: "belowEntry dp name p" and other: "name \<notin> fst ` set es"
  shows "filter (\<lambda>r. cf_folderPath r = p) (scanEntries root dp es depth) = []"
proof -
  have "\<And>r. r \<in> set (scanEntries root dp es depth) \<Longrightarrow> cf_folderPath r \<noteq> p"
  proof
    fix r assume r: "r \<in> set (scanEntries root dp es depth)" and e: "cf_folderPath r = p"
    from scan_below(2) [of es root dp depth] wf r obtain n where
      n: "n \<in> fst ` set es" "plainName n" "belowEntry dp n (cf_folderPath r)" by blast
    from belowEntry_unique [OF n(2) pn] n(3) below e have "n = name" by simp
    with n(1) other show False by simp
  qed
  then show ?thesis by (simp add: filter_empty_conv)
qed

lemma leaf_entry:
  assumes "visibleName name" "imageFilesOf ces \<noteq> []"
  shows "scanEntries root dp [(name, DirNode m ces)] depth =
           [makeComicFolder root (path_join dp name) name depth m (imageFilesOf ces)]"
  using assms by (simp add: Let_def)

lemma container_entry:
  assumes "visibleName name" "imageFilesOf ces = []"
  shows "scanEntries root dp [(name, DirNode m ces)] depth =
           scanForComics root (path_join dp name) (DirNode m ces) (depth + 1)"
  using assms by (simp add: Let_def)

lemma split_entries:
  assumes "distinct (map fst es)" "(name, node) \<in> set es"
  obtains before after where "es = before @ (name, node) # after"
    "name \<notin> fst ` set before" "name \<notin> fst ` set after"
proof -
  from assms(2) obtain before after where s: "es = before @ (name, node) # after"
    by (auto dest: split_list)
  with assms(1) have "name \<notin> fst ` set before" "name \<notin> fst ` set after" by auto
  with s that show ?thesis by blast
qed

lemma examines_below:
  "examines dp node depth fp name child d \<Longrightarrow> wellFormed node \<Longrightarrow>
     \<exists>n. plainName n \<and> belowEntry dp n fp"
proof (induction rule: examines.induct)
  case (direct name child es depth dp pm)
  then show ?case
    using wellFormedEntries_plain [of es name child] by (auto simp: belowEntry_self)
next
  case (deeper n m ces es depth dp fp name child d pm)
  from deeper.prems deeper.hyps(1) have pn: "plainName n" and wfc: "wellFormed (DirNode m ces)"
    using wellFormedEntries_plain [of es n "DirNode m ces"] by auto
  from deeper.IH [OF wfc] obtain n2 where "belowEntry (path_join dp n) n2 fp" by blast
  with belowEntry_deeper [OF pn] have "belowEntry dp n fp" by blast
  with pn show ?case by blast
qed

lemma entry_only:
  assumes wfe: "wellFormedEntries es" and d: "distinct (map fst es)"
      and entry: "(name, node) \<in> set es" and below: "belowEntry dp name p"
  shows "filter (\<lambda>r. cf_folderPath r = p) (scanEntries root dp es depth) =
         filter (\<lambda>r. cf_folderPath r = p) (scanEntries root dp [(name, node)] depth)"
proof -
  from wellFormedEntries_plain [OF wfe entry] have pn: "plainName name" by simp
  obtain before after where s: "es = before @ (name, node) # after"
    and nb: "name \<notin> fst ` set before" and na: "name \<notin> fst ` set after"
    using split_entries [OF d entry] by blast
  from wfe s have wb: "wellFormedEntries before" and wa: "wellFormedEntries after"
    by (simp_all add: wellFormedEntries_append)
  have sc: "scanEntries root dp es depth =
          scanEntries root dp before depth @ scanEntries root dp [(name, node)] depth @
          scanEntries root dp after depth"
    unfolding s scanEntries_append [of root dp before "(name, node) # after"]
    using scanEntries_append [of root dp "[(name, node)]" after depth] by simp
  show ?thesis
    unfolding sc
    using other_entries_miss [OF wb pn below nb] other_entries_miss [OF wa pn below na]
    by simp
qed

lemma examined_leaf_once:
  "examines dp node depth fp name child d \<Longrightarrow> wellFormed node \<Longrightarrow>
     child = DirNode m ces \<Longrightarrow> visibleName name \<Longrightarrow> imageFilesOf ces \<noteq> [] \<Longrightarrow>
     filter (\<lambda>r. cf_folderPath r = fp) (scanForComics root dp node depth) =
       [makeComicFolder root fp name d m (imageFilesOf ces)]"
proof (induction rule: examines.induct)
  case (direct name child es depth dp pm)
  from direct.prems(1) have dd: "distinct (map fst es)" and wfe: "wellFormedEntries es" by simp_all
  from direct have e: "(name, DirNode m ces) \<in> set es" by simp
  show ?case
    using entry_only [OF wfe dd e belowEntry_self, where root = root and depth = depth] direct.hyps(2)
      leaf_entry [OF direct.prems(3,4), where root = root and dp = dp and m = m and depth = depth]
    by simp
next
  case (deeper n m' ces' es depth dp fp name child d pm)
  from deeper.prems(1) have dd: "distinct (map fst es)" and wfe: "wellFormedEntries es" by simp_all
  from wellFormedEntries_plain [OF wfe deeper.hyps(1)]
  have pn: "plainName n" and wfc: "wellFormed (DirNode m' ces')" by simp_all
  from examines_below [OF deeper.hyps(5) wfc] obtain n2 where
    "belowEntry (path_join dp n) n2 fp" by blast
  with belowEntry_deeper [OF pn] have below: "belowEntry dp n fp" by blast
  have "filter (\<lambda>r. cf_folderPath r = fp) (scanEntries root dp es depth) =
        filter (\<lambda>r. cf_folderPath r = fp)
          (scanForComics root (path_join dp n) (DirNode m' ces') (depth + 1))"
    using entry_only [OF wfe dd deeper.hyps(1) below, where root = root and depth = depth]
      container_entry [OF deeper.hyps(3,4), where root = root and dp = dp and m = m' and depth = depth] by simp
  then show ?case
    using deeper.IH [OF wfc deeper.prems(2,3,4)] deeper.hyps(2) by simp
qed


lemma noImages_iff:
  "imageFilesOf ces = [] \<longleftrightarrow>
     filter (\<lambda>item. isFile (snd item) \<and> isImageName (fst item)) ces = []"
  by (simp add: imageFilesOf_def sort_Nil_iff)

lemma examines_children:
  "examines dp node depth fp name child d \<Longrightarrow> child = DirNode m ces \<Longrightarrow>
     visibleName name \<Longrightarrow> imageFilesOf ces = [] \<Longrightarrow> d + 1 \<le> maxDepth \<Longrightarrow>
     (n2, c2) \<in> set ces \<Longrightarrow>
     examines dp node depth (path_join fp n2) n2 c2 (d + 1)"
proof (induction rule: examines.induct)
  case (direct name child es depth dp pm)
  have inner: "examines (path_join dp name) (DirNode m ces) (depth + 1)
          (path_join (path_join dp name) n2) n2 c2 (depth + 1)"
    by (rule examines.direct [OF direct.prems(5) direct.prems(4)])
  from direct.hyps(1) direct.prems(1) have e: "(name, DirNode m ces) \<in> set es" by simp
  show ?case
    by (rule examines.deeper [OF e direct.hyps(2) direct.prems(2,3) inner])
next
  case (deeper n m' ces' es depth dp fp name child d pm)
  have inner: "examines (path_join dp n) (DirNode m' ces') (depth + 1) (path_join fp n2) n2 c2 (d + 1)"
    by (rule deeper.IH [OF deeper.prems])
  show ?case
    by (rule examines.deeper [OF deeper.hyps(1,2,3,4) inner])
qed



lemma exLib_entries: "exLib = DirNode 1 ((exAuthorAName, DirNode 2 exAuthorAFiles) # exLibRest)"
  by (simp add: exLib_def exAuthorAFiles_def exSeriesXFiles_def exLibRest_def exAuthorAName_def)

lemma exLib_wellFormed: "wellFormed exLib"
  by (simp add: exLib_def plainName_def)

lemma ex_join:
  "path_join exRootPath exAuthorAName = exAuthorAPath"
  "path_join exAuthorAPath exSeriesXName = exSeriesXPath"
  by (simp_all add: path_join_def exRootPath_def exAuthorAName_def exAuthorAPath_def
      exSeriesXName_def exSeriesXPath_def)

lemma ex_visible: "visibleName exAuthorAName" "visibleName exSeriesXName"
  by (simp_all add: visibleName_def startsWith_def exAuthorAName_def exSeriesXName_def)

lemma exAuthorA_noImages:
  "filter (\<lambda>item. isFile (snd item) \<and> isImageName (fst item)) exAuthorAFiles = []"
  by (simp add: exAuthorAFiles_def)

lemma exSeriesX_images:
  "filter (\<lambda>item. isFile (snd item) \<and> isImageName (fst item)) exSeriesXFiles = exSeriesXFiles"
  by (simp add: exSeriesXFiles_def isImageName_def imageExtensions_def endsWith_def
      toLowerCase_def toLowerChar_def)

lemma exSeriesX_sorted: "imageFilesOf exSeriesXFiles = [''1.jpg'', ''2.png'']"
  by (simp add: imageFilesOf_def exSeriesX_images) (simp add: exSeriesXFiles_def)

lemma ex_reach_AuthorA:
  "examines exRootPath exLib 0 exAuthorAPath exAuthorAName (DirNode 2 exAuthorAFiles) 0"
  unfolding exLib_entries ex_join(1) [symmetric]
  by (rule examines.direct) (simp_all add: maxDepth_def)

lemma ex_reach_SeriesX:
  "examines exRootPath exLib 0 exSeriesXPath exSeriesXName (DirNode 3 exSeriesXFiles) (0 + 1)"
proof -
  have e: "(exSeriesXName, DirNode 3 exSeriesXFiles) \<in> set exAuthorAFiles"
    by (simp add: exAuthorAFiles_def exSeriesXName_def)
  have ten: "(0::nat) + 1 \<le> maxDepth" by (simp add: maxDepth_def)
  from examines_children [OF ex_reach_AuthorA refl ex_visible(1) _ ten e]
  show ?thesis by (simp add: noImages_iff exAuthorA_noImages ex_join)
qed

text \<open>
  C3, amended. For every visible, readable folder that the scan reaches (an entry of the
  root, or of a visible folder without image files that the scan descends into, listed
  at a depth of at most ten) and that holds at least one supported image file, the scan
  of a well-formed tree emits exactly one record for the path of that folder. Its
  \<open>totalPages\<close> is the number of image files of the folder, its pages are the image files
  in ascending order of their code units (case-sensitive: an upper-case letter sorts
  before every lower-case letter), and its cover is the first page.
\<close>

theorem scanned_leaf_record:
  assumes reach: "examines directoryPath node 0 fp name (DirNode m ces) d"
      and wf: "wellFormed node"
      and visible: "visibleName name"
      and images: "filter (\<lambda>item. isFile (snd item) \<and> isImageName (fst item)) ces \<noteq> []"
  shows "\<exists>r. filter (\<lambda>r. cf_folderPath r = fp)
                (sr_comics (read_directory directoryPath (Some node))) = [r] \<and>
             cf_totalPages r =
               length (filter (\<lambda>item. isFile (snd item) \<and> isImageName (fst item)) ces) \<and>
             length (cf_pages r) = cf_totalPages r \<and>
             cf_pages r = map (\<lambda>f. ''file://'' @ path_join fp f) (imageFilesOf ces) \<and>
             sorted (imageFilesOf ces) \<and>
             set (imageFilesOf ces) =
               fst ` {item \<in> set ces. isFile (snd item) \<and> isImageName (fst item)} \<and>
             cf_coverImage r = Some (hd (cf_pages r)) \<and>
             cf_title r = name"
proof -
  let ?r = "makeComicFolder directoryPath fp name d m (imageFilesOf ces)"
  from images have ne: "imageFilesOf ces \<noteq> []" by (simp add: noImages_iff)
  have f: "filter (\<lambda>r. cf_folderPath r = fp)
             (sr_comics (read_directory directoryPath (Some node))) = [?r]"
    using examined_leaf_once [OF reach wf refl visible ne, of directoryPath]
    by (simp add: read_directory_def Let_def)
  have len: "length (imageFilesOf ces) =
      length (filter (\<lambda>item. isFile (snd item) \<and> isImageName (fst item)) ces)"
    by (simp add: imageFilesOf_def)
  have st: "set (imageFilesOf ces) =
               fst ` {item \<in> set ces. isFile (snd item) \<and> isImageName (fst item)}"
    by (simp add: imageFilesOf_def)
  show ?thesis
    apply (rule exI [of _ ?r])
    apply (intro conjI)
           apply (rule f)
          apply (simp add: makeComicFolder_def len)
         apply (simp add: makeComicFolder_def)
        apply (simp add: makeComicFolder_def)
       apply (simp add: imageFilesOf_def)
      apply (rule st)
     apply (simp add: makeComicFolder_def hd_map [OF ne])
    apply (simp add: makeComicFolder_def)
    done
qed

theorem scanned_leaf_record_witness:
  "examines exRootPath exLib 0 exSeriesXPath exSeriesXName (DirNode 3 exSeriesXFiles) (0 + 1) \<and>
   wellFormed exLib \<and> visibleName exSeriesXName \<and>
   filter (\<lambda>item. isFile (snd item) \<and> isImageName (fst item)) exSeriesXFiles \<noteq> [] \<and>
   (\<exists>r. filter (\<lambda>r. cf_folderPath r = exSeriesXPath)
           (sr_comics (read_directory exRootPath (Some exLib))) = [r] \<and>
        cf_totalPages r = 2 \<and>
        cf_pages r = [''file:///Lib/AuthorA/SeriesX/1.jpg'', ''file:///Lib/AuthorA/SeriesX/2.png''] \<and>
        cf_coverImage r = Some ''file:///Lib/AuthorA/SeriesX/1.jpg'')"
proof -
  have h4: "filter (\<lambda>item. isFile (snd item) \<and> isImageName (fst item)) exSeriesXFiles \<noteq> []"
    by (simp add: exSeriesX_images) (simp add: exSeriesXFiles_def)
  from scanned_leaf_record [OF ex_reach_SeriesX exLib_wellFormed ex_visible(2) h4]
  obtain r where
    f: "filter (\<lambda>r. cf_folderPath r = exSeriesXPath)
           (sr_comics (read_directory exRootPath (Some exLib))) = [r]" and
    t: "cf_totalPages r =
          length (filter (\<lambda>item. isFile (snd item) \<and> isImageName (fst item)) exSeriesXFiles)" and
    p: "cf_pages r = map (\<lambda>f. ''file://'' @ path_join exSeriesXPath f) (imageFilesOf exSeriesXFiles)" and
    c: "cf_coverImage r = Some (hd (cf_pages r))"
    by (elim exE conjE)
  from t have t': "cf_totalPages r = 2"
    by (simp add: exSeriesX_images) (simp add: exSeriesXFiles_def)
  from p have p': "cf_pages r =
      [''file:///Lib/AuthorA/SeriesX/1.jpg'', ''file:///Lib/AuthorA/SeriesX/2.png'']"
    by (simp add: exSeriesX_sorted path_join_def exSeriesXPath_def)
  from c p' have c': "cf_coverImage r = Some ''file:///Lib/AuthorA/SeriesX/1.jpg''" by simp
  have "\<exists>r. filter (\<lambda>r. cf_folderPath r = exSeriesXPath)
           (sr_comics (read_directory exRootPath (Some exLib))) = [r] \<and>
        cf_totalPages r = 2 \<and>
        cf_pages r = [''file:///Lib/AuthorA/SeriesX/1.jpg'', ''file:///Lib/AuthorA/SeriesX/2.png''] \<and>
        cf_coverImage r = Some ''file:///Lib/AuthorA/SeriesX/1.jpg''"
    by (rule exI [of _ r]) (rule conjI [OF f conjI [OF t' conjI [OF p' c']]])
  then show ?thesis
    by (rule conjI [OF ex_reach_SeriesX conjI [OF exLib_wellFormed conjI [OF ex_visible(2) conjI [OF h4]]]])
qed

text \<open>
  The claim as stated fails on a folder that holds \<^verbatim>\<open>a.jpg\<close> and \<^verbatim>\<open>B.JPG\<close>: the page of
  \<^verbatim>\<open>B.JPG\<close> comes first, while without regard to case \<^verbatim>\<open>a.jpg\<close> precedes it.
\<close>

theorem pages_case_sensitive_counterexample:
  "cf_pages (sr_comics (read_directory ''/Lib'' (Some exLib)) ! 1) =
     [''file:///Lib/AuthorB/B.JPG'', ''file:///Lib/AuthorB/a.jpg''] \<and>
   toLowerCase ''a.jpg'' < toLowerCase ''B.JPG''"
proof -
  have a: "sr_comics (read_directory ''/Lib'' (Some exLib)) ! 1 = exFolderB"
    by (simp add: exLib_scan)
  have b: "cf_pages exFolderB = [''file:///Lib/AuthorB/B.JPG'', ''file:///Lib/AuthorB/a.jpg'']"
    by (simp add: exFolderB_def)
  have c: "toLowerCase ''a.jpg'' < toLowerCase ''B.JPG''"
    by (simp add: toLowerCase_def toLowerChar_def)
  from a b c show ?thesis by simp
qed





text \<open>
  C7. Where the root path cannot be read (no such path, or a listing that throws), the
  \<^verbatim>\<open>read-directory\<close> handler returns no comics and an empty error list: the exception is
  caught and logged inside \<^verbatim>\<open>scanForComics\<close>, and the \<^verbatim>\<open>catch\<close> of the handler, which
  would return one error, is never reached. The sibling scanner of
  \<^verbatim>\<open>scanDirectory.cjs\<close> returns no comics and exactly one error on the same input.
\<close>

theorem unreadable_root_no_error:
  "sr_comics (read_directory directoryPath None) = [] \<and>
   sr_errors (read_directory directoryPath None) = [] \<and>
   sr_comics (read_directory directoryPath (Some DeniedDir)) = [] \<and>
   sr_errors (read_directory directoryPath (Some DeniedDir)) = [] \<and>
   sr_comics (scanDirectoryForComics thrown directoryPath None) = [] \<and>
   length (sr_errors (scanDirectoryForComics thrown directoryPath None)) = 1 \<and>
   sr_comics (scanDirectoryForComics thrown directoryPath (Some DeniedDir)) = [] \<and>
   length (sr_errors (scanDirectoryForComics thrown directoryPath (Some DeniedDir))) = 1"
  by (simp add: read_directory_def scanDirectoryForComics_def)

end
